theory Spec2Isabelle
  imports Complex_Main "HOL-Library.Word" "HOL-Library.Sublist"
begin

unbundle bit_operations_syntax

section \<open>The quota blob parser (class DatabaseReader)\<close>

subsection \<open>Buffers and JavaScript numbers\<close>

text \<open>
  A Node \<open>Buffer\<close> is a list of bytes. Offsets are JavaScript numbers; every offset the
  parser computes is an integer far below \<open>2^53\<close>, so they are modelled as \<open>int\<close>
  (they can become negative, see \<open>skipField\<close>). The operands and results of the bitwise
  operators \<open>|\<close>, \<open>&\<close>, \<open><<\<close> and \<open>>>>\<close> are 32-bit integers: they are \<open>32 word\<close>, and
  \<open>sint\<close> gives the number that JavaScript computes with afterwards.
\<close>

type_synonym byte = "8 word"
type_synonym buffer = "byte list"
type_synonym int32 = "32 word"

text \<open>\<open>buffer[i]\<close>: \<open>undefined\<close> (here \<open>None\<close>) outside the buffer, never an exception.\<close>

definition byteAt :: "buffer \<Rightarrow> int \<Rightarrow> byte option" where
  "byteAt buffer i =
     (if 0 \<le> i \<and> i < int (length buffer) then Some (buffer ! nat i) else None)"

text \<open>The conversion a bitwise operator applies to its operand: \<open>undefined\<close> becomes 0.\<close>

definition toInt32 :: "byte option \<Rightarrow> int32" where
  "toInt32 b = (case b of None \<Rightarrow> 0 | Some x \<Rightarrow> ucast x)"

subsection \<open>readVarintTuple\<close>

text \<open>
  The loop of \<open>readVarintTuple\<close>, with its variables \<open>i\<close>, \<open>shift\<close> and \<open>value\<close>; it returns
  \<open>value\<close> and the final \<open>i\<close>. The shift grows by 7 up to 35, which bounds the loop.
\<close>

function readVarintLoop :: "buffer \<Rightarrow> int \<Rightarrow> nat \<Rightarrow> int32 \<Rightarrow> int32 \<times> int" where
  "readVarintLoop buffer i shift val =
     (if i < int (length buffer) \<and> shift < 35 then
        (let byte = toInt32 (byteAt buffer i);
             val' = val OR push_bit shift (byte AND 0x7f);
             i' = i + 1
         in if byte AND 0x80 = 0 then (val', i')
            else readVarintLoop buffer i' (shift + 7) val')
      else (val, i))"
  by pat_completeness auto
termination
  by (relation "measure (\<lambda>(buffer, i, shift, val). 35 - shift)") auto

declare readVarintLoop.simps [simp del]

text \<open>The result \<open>{ value, bytesRead }\<close> is the pair \<open>(value, bytesRead)\<close>.\<close>

definition readVarintTuple :: "buffer \<Rightarrow> int \<Rightarrow> int32 \<times> int" where
  "readVarintTuple buffer offset =
     (let (val, i) = readVarintLoop buffer offset 0 0 in (val, i - offset))"

subsection \<open>skipField\<close>

text \<open>
  Nothing in the body of \<open>skipField\<close> can throw (\<open>readVarintTuple\<close> never does), so its
  \<open>catch\<close> branch is dead and the function is the \<open>switch\<close> alone. The length of a
  length-delimited field is the number \<open>sint len\<close>.
\<close>

definition skipField :: "buffer \<Rightarrow> int \<Rightarrow> int32 \<Rightarrow> int" where
  "skipField buffer ptr wireType =
     (if wireType = 0 then
        (let (val, bytesRead) = readVarintTuple buffer ptr in ptr + bytesRead)
      else if wireType = 1 then ptr + 8
      else if wireType = 2 then
        (let (len, lenBytes) = readVarintTuple buffer ptr in ptr + lenBytes + sint len)
      else if wireType = 5 then ptr + 4
      else - 1)"

subsection \<open>readFloatLE\<close>

text \<open>
  A JavaScript number that comes out of \<open>readFloatLE\<close> is an IEEE 754 single: not a
  number, an infinity, or a finite value, kept here as the exact rational it denotes
  (both zeros are \<open>Finite 0\<close>; JavaScript's \<open>===\<close>, \<open>>=\<close> and \<open><=\<close> do not tell them apart).
\<close>

datatype jsnumber = NaN | PosInfinity | NegInfinity | Finite rat

definition float32Value :: "int32 \<Rightarrow> jsnumber" where
  "float32Value bits =
     (let negative = bit bits 31;
          e = unat (drop_bit 23 bits AND 0xFF);
          m = unat (bits AND 0x7FFFFF);
          s = (if negative then - 1 else 1)
      in if e = 255 then
           (if m = 0 then (if negative then NegInfinity else PosInfinity) else NaN)
         else if e = 0 then Finite (s * rat_of_nat m / 2 ^ 149)
         else if 150 \<le> e then Finite (s * rat_of_nat (2 ^ 23 + m) * 2 ^ (e - 150))
         else Finite (s * rat_of_nat (2 ^ 23 + m) / 2 ^ (150 - e)))"

datatype error = RangeError

text \<open>Node's \<open>buf.readFloatLE(offset)\<close> throws a range error unless
  \<open>0 \<le> offset \<le> buf.length - 4\<close>.\<close>

definition readFloatLE :: "buffer \<Rightarrow> int \<Rightarrow> error + jsnumber" where
  "readFloatLE buffer offset =
     (if offset < 0 \<or> int (length buffer) < offset + 4 then Inl RangeError
      else
        (let n = nat offset;
             bits = ucast (buffer ! n) OR push_bit 8 (ucast (buffer ! (n + 1)))
                    OR push_bit 16 (ucast (buffer ! (n + 2)))
                    OR push_bit 24 (ucast (buffer ! (n + 3)))
         in Inr (float32Value bits)))"

text \<open>The comparisons \<open>x >= c\<close> and \<open>x <= c\<close> of a number with a finite constant.\<close>

fun num_ge :: "jsnumber \<Rightarrow> rat \<Rightarrow> bool" where
  "num_ge NaN c = False"
| "num_ge PosInfinity c = True"
| "num_ge NegInfinity c = False"
| "num_ge (Finite r) c = (c \<le> r)"

fun num_le :: "jsnumber \<Rightarrow> rat \<Rightarrow> bool" where
  "num_le NaN c = False"
| "num_le PosInfinity c = False"
| "num_le NegInfinity c = True"
| "num_le (Finite r) c = (r \<le> c)"

subsection \<open>parseResetTimeMessage\<close>

text \<open>
  A \<open>Date\<close> is its time value, the milliseconds since the epoch. The walk can move
  backwards (a length-delimited field whose length reads as a negative 32-bit number),
  so the loop need not end: the functions of the parser return an \<open>option\<close> whose \<open>None\<close>
  is "does not return". The inner \<open>option\<close> is \<open>Date | undefined\<close>.
\<close>

partial_function (option) parseResetTimeLoop :: "buffer \<Rightarrow> int \<Rightarrow> int \<Rightarrow> int option option" where
  "parseResetTimeLoop buffer endp ptr =
     (if ptr < endp then
        (case readVarintTuple buffer ptr of (tag, tagBytes) \<Rightarrow>
           (let ptr1 = ptr + tagBytes;
                wireType = tag AND 0x07;
                fieldNum = drop_bit 3 tag
            in if fieldNum = 1 \<and> wireType = 0 then
                 (case readVarintTuple buffer ptr1 of (ts, tsBytes) \<Rightarrow>
                    (let ptr2 = ptr1 + tsBytes
                     in if 1704067200 < sint ts \<and> sint ts < 1900000000
                        then Some (Some (sint ts * 1000))
                        else parseResetTimeLoop buffer endp ptr2))
               else
                 (let newPtr = skipField buffer ptr1 wireType
                  in if newPtr = - 1 \<or> endp < newPtr then Some None
                     else parseResetTimeLoop buffer endp newPtr)))
      else Some None)"

definition parseResetTimeMessage :: "buffer \<Rightarrow> int \<Rightarrow> int \<Rightarrow> int option option" where
  "parseResetTimeMessage buffer start endp = parseResetTimeLoop buffer endp start"

subsection \<open>parseInnerQuotaMessage\<close>

record quota =
  remainingFraction :: "jsnumber option"
  resetTime :: "int option"

record parsed = quota +
  found :: bool

text \<open>
  The loop of \<open>parseInnerQuotaMessage\<close> with its variables \<open>ptr\<close>, \<open>remainingFraction\<close>,
  \<open>resetTime\<close> and \<open>foundAny\<close>. \<open>Inl\<close> is the exception of \<open>readFloatLE\<close>, which nothing
  in the function catches.
\<close>

partial_function (option) parseInnerLoop ::
  "buffer \<Rightarrow> int \<Rightarrow> int \<Rightarrow> jsnumber option \<Rightarrow> int option \<Rightarrow> bool \<Rightarrow> (error + parsed) option"
where
  "parseInnerLoop buffer endp ptr rf rt foundAny =
     (if ptr < endp then
        (case readVarintTuple buffer ptr of (tag, tagBytes) \<Rightarrow>
           (let ptr1 = ptr + tagBytes;
                wireType = tag AND 0x07;
                fieldNum = drop_bit 3 tag
            in if fieldNum = 1 \<and> wireType = 5 then
                 (if ptr1 + 4 \<le> endp then
                    (case readFloatLE buffer ptr1 of
                       Inl e \<Rightarrow> Some (Inl e)
                     | Inr f \<Rightarrow>
                         if num_ge f 0 \<and> num_le f 1
                         then parseInnerLoop buffer endp (ptr1 + 4) (Some f) rt True
                         else parseInnerLoop buffer endp (ptr1 + 4) None rt foundAny)
                  else Some (Inr \<lparr>remainingFraction = rf, resetTime = rt, found = foundAny\<rparr>))
               else if fieldNum = 2 \<and> wireType = 2 then
                 (case readVarintTuple buffer ptr1 of (innerLen, innerLenBytes) \<Rightarrow>
                    (let ptr2 = ptr1 + innerLenBytes;
                         innerEnd = ptr2 + sint innerLen
                     in if innerEnd \<le> endp then
                          (case parseResetTimeMessage buffer ptr2 innerEnd of
                             None \<Rightarrow> None
                           | Some None \<Rightarrow> parseInnerLoop buffer endp innerEnd rf rt foundAny
                           | Some (Some d) \<Rightarrow> parseInnerLoop buffer endp innerEnd rf (Some d) True)
                        else Some (Inr \<lparr>remainingFraction = rf, resetTime = rt, found = foundAny\<rparr>)))
               else
                 (let newPtr = skipField buffer ptr1 wireType
                  in if newPtr = - 1 \<or> endp < newPtr
                     then Some (Inr \<lparr>remainingFraction = rf, resetTime = rt, found = foundAny\<rparr>)
                     else parseInnerLoop buffer endp newPtr rf rt foundAny)))
      else Some (Inr \<lparr>remainingFraction = rf, resetTime = rt, found = foundAny\<rparr>))"

definition parseInnerQuotaMessage :: "buffer \<Rightarrow> int \<Rightarrow> int \<Rightarrow> (error + parsed) option" where
  "parseInnerQuotaMessage buffer start endp = parseInnerLoop buffer endp start None None False"

subsection \<open>Searching the buffer as a binary string\<close>

text \<open>
  \<open>buffer.toString('binary')\<close> is the string whose character codes are the bytes, so a
  search in it is a search in the byte list. The labels and patterns are ASCII literals.
\<close>

definition bytesOf :: "string \<Rightarrow> byte list" where
  "bytesOf s = map of_char s"

text \<open>\<open>str.indexOf(pat)\<close>: the first index at which \<open>pat\<close> occurs, or \<open>-1\<close>.\<close>

fun indexOfFrom :: "byte list \<Rightarrow> byte list \<Rightarrow> int \<Rightarrow> int" where
  "indexOfFrom [] pat i = (if pat = [] then i else - 1)"
| "indexOfFrom (x # xs) pat i =
     (if prefix pat (x # xs) then i else indexOfFrom xs pat (i + 1))"

definition indexOf :: "byte list \<Rightarrow> byte list \<Rightarrow> int" where
  "indexOf str pat = indexOfFrom str pat 0"

text \<open>
  The regular expressions of the reader are literals, one of them with a negative
  lookahead: \<open>/Claude Sonnet 4\.5(?! \()/\<close> is \<open>NotFollowedBy ''Claude Sonnet 4.5'' '' (''\<close>.
  Each is a fresh object, so \<open>test\<close> and \<open>match\<close> search from index 0.
\<close>

datatype pattern = Literal string | NotFollowedBy string string

fun matchesHere :: "pattern \<Rightarrow> byte list \<Rightarrow> bool" where
  "matchesHere (Literal l) str = prefix (bytesOf l) str"
| "matchesHere (NotFollowedBy l n) str =
     (prefix (bytesOf l) str \<and> \<not> prefix (bytesOf n) (drop (length l) str))"

fun regexTest :: "pattern \<Rightarrow> byte list \<Rightarrow> bool" where
  "regexTest p [] = matchesHere p []"
| "regexTest p (x # xs) = (matchesHere p (x # xs) \<or> regexTest p xs)"

subsection \<open>parseQuotaFields\<close>

definition modelLabels :: "string list" where
  "modelLabels =
     [''Claude Opus 4.5 (Thinking)'',
      ''Claude Sonnet 4.5 (Thinking)'',
      ''Claude Sonnet 4.5'',
      ''Gemini 3 Pro (High)'',
      ''Gemini 3 Pro (Low)'',
      ''Gemini 3 Flash'',
      ''GPT-OSS 120B (Medium)'']"

text \<open>
  The \<open>while (searchPtr < searchLimit)\<close> loop for one label; \<open>quotaMap\<close> is the map being
  filled. An exception of \<open>parseInnerQuotaMessage\<close> is caught and the search goes on;
  leaving the loop by \<open>break\<close> returns the map. (\<open>foundForLabel\<close> is written and never read.)
\<close>

partial_function (option) searchLoop ::
  "buffer \<Rightarrow> string \<Rightarrow> int \<Rightarrow> int \<Rightarrow> (string \<rightharpoonup> quota) \<Rightarrow> (string \<rightharpoonup> quota) option"
where
  "searchLoop buffer label searchPtr searchLimit quotaMap =
     (if searchPtr < searchLimit then
        (if byteAt buffer searchPtr = Some 0x7a then
           (case readVarintTuple buffer (searchPtr + 1) of (msgLen, lenBytes) \<Rightarrow>
              (let msgStart = searchPtr + 1 + lenBytes;
                   msgEnd = msgStart + sint msgLen
               in if msgEnd \<le> int (length buffer) then
                    (case parseInnerQuotaMessage buffer msgStart msgEnd of
                       None \<Rightarrow> None
                     | Some (Inl e) \<Rightarrow>
                         searchLoop buffer label (searchPtr + 1) searchLimit quotaMap
                     | Some (Inr p) \<Rightarrow>
                         if found p then
                           (let remainingFraction =
                                  (if quota.remainingFraction p = None \<and> quota.resetTime p \<noteq> None
                                   then Some (Finite 0) else quota.remainingFraction p);
                                resetTime = quota.resetTime p
                            in if remainingFraction \<noteq> None \<or> resetTime \<noteq> None
                               then Some (quotaMap(label \<mapsto>
                                      \<lparr>remainingFraction = remainingFraction, resetTime = resetTime\<rparr>))
                               else Some quotaMap)
                         else searchLoop buffer label (searchPtr + 1) searchLimit quotaMap)
                  else searchLoop buffer label (searchPtr + 1) searchLimit quotaMap))
         else searchLoop buffer label (searchPtr + 1) searchLimit quotaMap)
      else Some quotaMap)"

text \<open>The \<open>for (const label of modelLabels)\<close> loop.\<close>

fun parseLabels ::
  "buffer \<Rightarrow> string list \<Rightarrow> (string \<rightharpoonup> quota) \<Rightarrow> (string \<rightharpoonup> quota) option"
where
  "parseLabels buffer [] quotaMap = Some quotaMap"
| "parseLabels buffer (label # labels) quotaMap =
     (let idx = indexOf buffer (bytesOf label)
      in if idx \<noteq> - 1 then
           (let searchPtr = idx + int (length label);
                searchLimit = min (int (length buffer)) (searchPtr + 500)
            in case searchLoop buffer label searchPtr searchLimit quotaMap of
                 None \<Rightarrow> None
               | Some quotaMap' \<Rightarrow> parseLabels buffer labels quotaMap')
         else parseLabels buffer labels quotaMap)"

definition parseQuotaFields :: "buffer \<Rightarrow> (string \<rightharpoonup> quota) option" where
  "parseQuotaFields buffer = parseLabels buffer modelLabels Map.empty"

subsection \<open>extractModelQuotas and the snapshot\<close>

definition modelPatterns :: "(pattern \<times> string) list" where
  "modelPatterns =
     [(Literal ''Claude Opus 4.5 (Thinking)'', ''Claude Opus 4.5 (Thinking)''),
      (Literal ''Claude Sonnet 4.5 (Thinking)'', ''Claude Sonnet 4.5 (Thinking)''),
      (NotFollowedBy ''Claude Sonnet 4.5'' '' ('', ''Claude Sonnet 4.5''),
      (Literal ''Gemini 3 Pro (High)'', ''Gemini 3 Pro (High)''),
      (Literal ''Gemini 3 Pro (Low)'', ''Gemini 3 Pro (Low)''),
      (Literal ''Gemini 3 Flash'', ''Gemini 3 Flash''),
      (Literal ''GPT-OSS 120B (Medium)'', ''GPT-OSS 120B (Medium)'')]"

text \<open>The set \<open>detectedModels\<close>, in insertion order (the labels are distinct).\<close>

definition detectedModels :: "buffer \<Rightarrow> string list" where
  "detectedModels buffer = map snd (filter (\<lambda>(p, label). regexTest p buffer) modelPatterns)"

text \<open>\<open>label.toLowerCase().replace(/[^a-z0-9]/g, '-')\<close> on an ASCII label.\<close>

definition toLowerCase :: "char \<Rightarrow> char" where
  "toLowerCase c =
     (let n = of_char c :: nat in if 65 \<le> n \<and> n \<le> 90 then char_of (n + 32) else c)"

definition slugChar :: "char \<Rightarrow> char" where
  "slugChar c =
     (let n = of_char c :: nat
      in if (97 \<le> n \<and> n \<le> 122) \<or> (48 \<le> n \<and> n \<le> 57) then c else CHR ''-'')"

definition modelIdOf :: "string \<Rightarrow> string" where
  "modelIdOf label = map (slugChar \<circ> toLowerCase) label"

text \<open>
  \<open>x * 100\<close>; on a single-precision value the product is exact in double precision.
\<close>

fun times100 :: "jsnumber \<Rightarrow> jsnumber" where
  "times100 (Finite r) = Finite (r * 100)"
| "times100 x = x"

text \<open>
  One entry of the result. The clock (\<open>new Date()\<close>, \<open>Date.now()\<close>) is the parameter
  \<open>now\<close>, in milliseconds. The field \<open>timeUntilResetFormatted\<close>, a rendering of
  \<open>timeUntilReset\<close> as text, is left out.
\<close>

record ModelQuotaInfo =
  label :: string
  modelId :: string
  remainingFraction :: "jsnumber option"
  remainingPercentage :: "jsnumber option"
  isExhausted :: bool
  resetTime :: int
  timeUntilReset :: int

definition makeModel :: "int \<Rightarrow> string \<Rightarrow> quota option \<Rightarrow> ModelQuotaInfo" where
  "makeModel now lbl q =
     (let rf = (case q of None \<Rightarrow> None | Some x \<Rightarrow> quota.remainingFraction x);
          rt = (case q of None \<Rightarrow> None | Some x \<Rightarrow> quota.resetTime x)
      in \<lparr>label = lbl,
          modelId = modelIdOf lbl,
          remainingFraction = rf,
          remainingPercentage = (case rf of None \<Rightarrow> None | Some f \<Rightarrow> Some (times100 f)),
          isExhausted = (rf = Some (Finite 0)),
          resetTime = (case rt of None \<Rightarrow> now | Some d \<Rightarrow> d),
          timeUntilReset = (case rt of None \<Rightarrow> 0 | Some d \<Rightarrow> d - now)\<rparr>)"

definition extractModelQuotas :: "int \<Rightarrow> buffer \<Rightarrow> ModelQuotaInfo list option" where
  "extractModelQuotas now buffer =
     (case parseQuotaFields buffer of
        None \<Rightarrow> None
      | Some quotaInfo \<Rightarrow>
          Some (map (\<lambda>lbl. makeModel now lbl (quotaInfo lbl)) (detectedModels buffer)))"

text \<open>\<open>extractPlanName\<close>: the first pattern of the list that occurs decides.\<close>

definition planPatterns :: "string list" where
  "planPatterns = [''Google AI Pro'', ''Google AI Ultra'', ''g1-pro-tier'', ''g1-ultra-tier'']"

fun firstPlan :: "buffer \<Rightarrow> string list \<Rightarrow> string option" where
  "firstPlan buffer [] = None"
| "firstPlan buffer (p # ps) =
     (if regexTest (Literal p) buffer
      then (if indexOf (bytesOf p) (bytesOf ''Ultra'') \<noteq> - 1
            then Some ''Google AI Ultra'' else Some ''Google AI Pro'')
      else firstPlan buffer ps)"

definition extractPlanName :: "buffer \<Rightarrow> string option" where
  "extractPlanName buffer = firstPlan buffer planPatterns"

text \<open>
  \<open>parseUserStatusProto\<close> on the decoded buffer. Nothing after the decoding throws, so
  the result is a snapshot whenever the parser returns.
\<close>

record QuotaSnapshot =
  timestamp :: int
  models :: "ModelQuotaInfo list"
  planName :: "string option"

definition parseUserStatusProto :: "int \<Rightarrow> buffer \<Rightarrow> QuotaSnapshot option" where
  "parseUserStatusProto now buffer =
     (case extractModelQuotas now buffer of
        None \<Rightarrow> None
      | Some ms \<Rightarrow> Some \<lparr>timestamp = now, models = ms, planName = extractPlanName buffer\<rparr>)"

subsection \<open>The sanity ranges\<close>

text \<open>
  Two predicates to state what the parser lets through, not functions of the reader:
  a fraction, if present, lies in \<open>[0, 1]\<close>; a reset time, if present, is
  \<open>new Date(t * 1000)\<close> for a \<open>t\<close> with \<open>1704067200 < t < 1900000000\<close>.
\<close>

definition inUnit :: "jsnumber option \<Rightarrow> bool" where
  "inUnit rf = (case rf of None \<Rightarrow> True | Some f \<Rightarrow> num_ge f 0 \<and> num_le f 1)"

definition inWindow :: "int option \<Rightarrow> bool" where
  "inWindow rt =
     (case rt of
        None \<Rightarrow> True
      | Some d \<Rightarrow> d mod 1000 = 0 \<and> 1704067200 < d div 1000 \<and> d div 1000 < 1900000000)"

subsection \<open>The search after a label, offset by offset\<close>









text \<open>
  At the first occurrence of the label's text, the pattern that \<open>extractModelQuotas\<close> has
  for the label matches. The text \<open>Claude Sonnet 4.5\<close> also occurs as the beginning of
  \<open>Claude Sonnet 4.5 (Thinking)\<close>: the pattern excludes such an occurrence, \<open>indexOf\<close> does
  not.
\<close>

definition ownOccurrence :: "buffer \<Rightarrow> string \<Rightarrow> bool" where
  "ownOccurrence buffer lbl \<longleftrightarrow>
     (\<forall>(pat, l) \<in> set modelPatterns.
        l = lbl \<longrightarrow> matchesHere pat (drop (nat (indexOf buffer (bytesOf lbl))) buffer))"

section \<open>The refresh state machine (class CursorProvider)\<close>

subsection \<open>The provider and the event loop around it\<close>

text \<open>
  The provider is single-threaded: its methods and callbacks run one at a time, to
  completion, in an order the event loop chooses. The state below is the provider's own
  fields followed by the part of its surroundings that the methods act on: the live
  timeouts of the event loop (a handle is a number, \<open>setTimeout\<close> hands out fresh ones),
  the calls of \<open>fetchData\<close> suspended at an \<open>await\<close>, and counters of what the provider
  has done. Time itself is not modelled: a live timeout may fire at any moment. What is
  kept of it is the delay each timeout was armed with, the second argument of
  \<open>setTimeout\<close>: a number of milliseconds, or one of the two constants that the class
  takes from \<open>../common/constants\<close>, a file that is not among the sources (their values
  play no role here).
\<close>

type_synonym timer = nat

datatype callback = ClickCallback | FetchTimeoutCallback | RetryCallback nat

datatype delay = Millis nat | DOUBLE_CLICK_DELAY | FETCH_TIMEOUT

record provider =
  retryTimer :: "timer option"
  clickTimer :: "timer option"
  fetchTimeoutTimer :: "timer option"
  clickCount :: nat
  isRefreshing :: bool
  isManualRefresh :: bool
  statusBarDisposed :: bool
  timers :: "timer \<rightharpoonup> callback"
  delays :: "timer \<rightharpoonup> delay"
  nextTimer :: timer
  inFlight :: "nat \<rightharpoonup> nat"
  fetchInvocations :: nat
  refreshCalls :: nat
  settingsCommands :: nat
  errorMessages :: nat
  dataUpdates :: nat

definition setTimeout :: "callback \<Rightarrow> delay \<Rightarrow> provider \<Rightarrow> timer \<times> provider" where
  "setTimeout cb ms s =
     (nextTimer s,
      s\<lparr>timers := (timers s)(nextTimer s \<mapsto> cb), delays := (delays s)(nextTimer s \<mapsto> ms),
        nextTimer := nextTimer s + 1\<rparr>)"

definition clearTimeout :: "timer \<Rightarrow> provider \<Rightarrow> provider" where
  "clearTimeout t s = s\<lparr>timers := (timers s)(t := None)\<rparr>"

subsection \<open>The methods\<close>

definition clearFetchTimeout :: "provider \<Rightarrow> provider" where
  "clearFetchTimeout s =
     (case fetchTimeoutTimer s of
        None \<Rightarrow> s
      | Some t \<Rightarrow> (clearTimeout t s)\<lparr>fetchTimeoutTimer := None\<rparr>)"

definition clearClickTimer :: "provider \<Rightarrow> provider" where
  "clearClickTimer s =
     (case clickTimer s of
        None \<Rightarrow> s
      | Some t \<Rightarrow> (clearTimeout t s)\<lparr>clickTimer := None\<rparr>)\<lparr>clickCount := 0\<rparr>"

definition resetRefreshState :: "provider \<Rightarrow> provider" where
  "resetRefreshState s = clearFetchTimeout (s\<lparr>isManualRefresh := False, isRefreshing := False\<rparr>)"

text \<open>
  \<open>fetchData(retryCount)\<close> up to its first \<open>await\<close>: it clears and arms the timeout and is
  then suspended; the call is numbered by \<open>fetchInvocations\<close> and recorded with its
  \<open>retryCount\<close>.
\<close>

definition fetchData :: "nat \<Rightarrow> provider \<Rightarrow> provider" where
  "fetchData retryCount s =
     (let s1 = clearFetchTimeout s;
          (t, s2) = setTimeout FetchTimeoutCallback FETCH_TIMEOUT s1;
          s3 = s2\<lparr>fetchTimeoutTimer := Some t\<rparr>
      in s3\<lparr>inFlight := (inFlight s3)(fetchInvocations s3 \<mapsto> retryCount),
            fetchInvocations := fetchInvocations s3 + 1\<rparr>)"

text \<open>The callback of the timeout armed by \<open>fetchData\<close>.\<close>

definition fetchTimeoutFired :: "provider \<Rightarrow> provider" where
  "fetchTimeoutFired s =
     (let s1 = resetRefreshState s
      in if isManualRefresh s1 then s1\<lparr>errorMessages := errorMessages s1 + 1\<rparr> else s1)"

text \<open>
  The \<open>catch\<close> block of \<open>fetchData(retryCount)\<close>: the timeout is cleared, and either the
  next attempt is scheduled, one second later, or the refresh state is reset. The handle
  of the retry timeout is not stored.
\<close>

definition fetchFailed :: "nat \<Rightarrow> provider \<Rightarrow> provider" where
  "fetchFailed retryCount s =
     (let s1 = clearFetchTimeout s
      in if retryCount < 3
         then snd (setTimeout (RetryCallback (retryCount + 1)) (Millis 1000) s1)
         else resetRefreshState s1)"

text \<open>
  The rest of \<open>fetchData(retryCount)\<close> once its awaits are over, by the way its \<open>try\<close> block
  is left. \<open>NoToken\<close>: the token is missing and the function returns early. \<open>Success\<close>: the
  requests succeeded, the usage data was assigned, the block ran to its end. The other
  three are an exception, caught by the \<open>catch\<close> block, and differ in what the \<open>try\<close> block
  had done before: nothing (\<open>Failure\<close>: a request failed, or reading the token did); the
  assignment of the usage data (\<open>FailureAfterData\<close>: the exception comes from the code
  between \<open>this.summaryData = summary\<close> and \<open>resetRefreshState()\<close>); that assignment,
  \<open>clearFetchTimeout()\<close> and \<open>resetRefreshState()\<close> (\<open>FailureAfterReset\<close>: the exception comes
  from \<open>updateStatusBar()\<close>, the last statement of the block, which reads fields of the
  summary just fetched). The other calls of \<open>updateStatusBar()\<close> make no such difference:
  in the timeout callback and in the \<open>catch\<close> block nothing that has an effect follows
  the call, and in \<open>initialize()\<close>, called by the constructor only, there is no summary
  yet and the call returns at once.
\<close>

datatype outcome = Success | NoToken | Failure | FailureAfterData | FailureAfterReset

fun fetchCompleted :: "nat \<Rightarrow> outcome \<Rightarrow> provider \<Rightarrow> provider" where
  "fetchCompleted retryCount NoToken s = resetRefreshState s"
| "fetchCompleted retryCount Success s =
     resetRefreshState (clearFetchTimeout (s\<lparr>dataUpdates := dataUpdates s + 1\<rparr>))"
| "fetchCompleted retryCount Failure s = fetchFailed retryCount s"
| "fetchCompleted retryCount FailureAfterData s =
     fetchFailed retryCount (s\<lparr>dataUpdates := dataUpdates s + 1\<rparr>)"
| "fetchCompleted retryCount FailureAfterReset s =
     fetchFailed retryCount
       (resetRefreshState (clearFetchTimeout (s\<lparr>dataUpdates := dataUpdates s + 1\<rparr>)))"

definition refresh :: "provider \<Rightarrow> provider" where
  "refresh s =
     fetchData 0 (s\<lparr>isManualRefresh := True, isRefreshing := True,
                     refreshCalls := refreshCalls s + 1\<rparr>)"

definition safeRefresh :: "provider \<Rightarrow> provider" where
  "safeRefresh s = fetchData 0 (if isRefreshing s then resetRefreshState s else s)"

definition handleStatusBarClick :: "provider \<Rightarrow> provider" where
  "handleStatusBarClick s =
     (if isRefreshing s then s
      else
        (let s1 = s\<lparr>clickCount := clickCount s + 1\<rparr>
         in case clickTimer s1 of
              Some t \<Rightarrow>
                (let s2 = clearClickTimer s1
                 in s2\<lparr>settingsCommands := settingsCommands s2 + 1\<rparr>)
            | None \<Rightarrow>
                (let (t, s2) = setTimeout ClickCallback DOUBLE_CLICK_DELAY s1
                 in s2\<lparr>clickTimer := Some t\<rparr>)))"

text \<open>The callback of the timeout armed by \<open>handleStatusBarClick\<close>.\<close>

definition clickTimerFired :: "provider \<Rightarrow> provider" where
  "clickTimerFired s = clearClickTimer (if clickCount s = 1 then refresh s else s)"

definition dispose :: "provider \<Rightarrow> provider" where
  "dispose s =
     (let s1 = (case retryTimer s of None \<Rightarrow> s | Some t \<Rightarrow> clearTimeout t s);
          s2 = clearClickTimer s1;
          s3 = clearFetchTimeout s2
      in s3\<lparr>statusBarDisposed := True\<rparr>)"

definition initialize :: "provider \<Rightarrow> provider" where
  "initialize s = fetchData 0 s"

text \<open>The constructor: the field initialisers, then \<open>initialize()\<close>.\<close>

definition newProvider :: provider where
  "newProvider =
     initialize
       \<lparr>retryTimer = None, clickTimer = None, fetchTimeoutTimer = None, clickCount = 0,
        isRefreshing = False, isManualRefresh = False, statusBarDisposed = False,
        timers = Map.empty, delays = Map.empty, nextTimer = 0, inFlight = Map.empty, fetchInvocations = 0,
        refreshCalls = 0, settingsCommands = 0, errorMessages = 0, dataUpdates = 0\<rparr>"

subsection \<open>Events\<close>

text \<open>
  What can happen to a provider: a click on the status bar item, the refresh command,
  \<open>safeRefresh()\<close> (database monitor, window focus), disposal, a live timeout firing (it
  is removed from the event loop and its callback runs), a suspended \<open>fetchData\<close>
  finishing.
\<close>

datatype event =
  Click | RefreshCommand | SafeRefresh | Dispose | TimerFires timer | FetchCompletes nat outcome

fun step :: "provider \<Rightarrow> event \<Rightarrow> provider" where
  "step s Click = handleStatusBarClick s"
| "step s RefreshCommand = refresh s"
| "step s SafeRefresh = safeRefresh s"
| "step s Dispose = dispose s"
| "step s (TimerFires t) =
     (case timers s t of
        None \<Rightarrow> s
      | Some cb \<Rightarrow>
          (let s1 = s\<lparr>timers := (timers s)(t := None)\<rparr>
           in case cb of
                ClickCallback \<Rightarrow> clickTimerFired s1
              | FetchTimeoutCallback \<Rightarrow> fetchTimeoutFired s1
              | RetryCallback n \<Rightarrow> fetchData n s1))"
| "step s (FetchCompletes k out) =
     (case inFlight s k of
        None \<Rightarrow> s
      | Some retryCount \<Rightarrow> fetchCompleted retryCount out (s\<lparr>inFlight := (inFlight s)(k := None)\<rparr>))"

definition run :: "event list \<Rightarrow> provider" where
  "run es = foldl step newProvider es"

text \<open>
  An auxiliary for the proofs, not a method of the provider: the live timeouts after
  \<open>clearTimeout\<close> on a handle that may be \<open>null\<close>.
\<close>

definition cancel :: "timer option \<Rightarrow> (timer \<rightharpoonup> callback) \<Rightarrow> (timer \<rightharpoonup> callback)" where
  "cancel h m = (case h of None \<Rightarrow> m | Some t \<Rightarrow> m(t := None))"

text \<open>
  A property of provider states, used to state the retry bound: no call of \<open>fetchData\<close>,
  suspended or scheduled by a retry timeout, carries a retry count above 3.
\<close>

definition retriesBounded :: "provider \<Rightarrow> bool" where
  "retriesBounded s \<longleftrightarrow>
     (\<forall>k rc. inFlight s k = Some rc \<longrightarrow> rc \<le> 3) \<and>
     (\<forall>t n. timers s t = Some (RetryCallback n) \<longrightarrow> n \<le> 3)"

section \<open>Properties of the varint reader and the field skipper\<close>












section \<open>Properties of the quota blob parser\<close>

subsection \<open>Single fields\<close>








text \<open>The loop of the reset-time parser at a field 1 of wire type 0.\<close>

lemma parseResetTimeLoop_end:
  "\<not> ptr < endp \<Longrightarrow> parseResetTimeLoop buffer endp ptr = Some None"
  by (subst parseResetTimeLoop.simps) simp


lemma parseResetTimeLoop_range_aux:
  assumes "parseResetTimeLoop buffer endp ptr = Some y"
  shows "\<forall>d. y = Some d \<longrightarrow>
      (\<exists>ts :: int32. 1704067200 < sint ts \<and> sint ts < 1900000000 \<and> d = sint ts * 1000)"
proof (rule parseResetTimeLoop.raw_induct[where P = "\<lambda>b e p y. \<forall>d. y = Some d \<longrightarrow>
      (\<exists>ts :: int32. 1704067200 < sint ts \<and> sint ts < 1900000000 \<and> d = sint ts * 1000)",
      OF _ assms], goal_cases)
  case (1 loop buffer endp ptr y)
  then show ?case
    by (auto simp add: Let_def split: if_splits prod.splits)
qed

lemma parseResetTimeMessage_range:
  "parseResetTimeMessage buffer start endp = Some (Some d) \<Longrightarrow>
   \<exists>ts :: int32. 1704067200 < sint ts \<and> sint ts < 1900000000 \<and> d = sint ts * 1000"
  unfolding parseResetTimeMessage_def by (drule parseResetTimeLoop_range_aux) simp

lemma inUnit_simps [simp]: "inUnit None" "inUnit (Some f) = (num_ge f 0 \<and> num_le f 1)"
  by (simp_all add: inUnit_def)

lemma inWindow_simps [simp]:
  "inWindow None"
  "inWindow (Some d) = (d mod 1000 = 0 \<and> 1704067200 < d div 1000 \<and> d div 1000 < 1900000000)"
  by (simp_all add: inWindow_def)

lemma parseInnerLoop_inv_aux:
  assumes "parseInnerLoop buffer endp ptr rf rt foundAny = Some y"
  shows "inUnit rf \<longrightarrow> inWindow rt \<longrightarrow>
   (\<forall>p. y = Inr p \<longrightarrow> inUnit (quota.remainingFraction p) \<and> inWindow (quota.resetTime p))"
proof (rule parseInnerLoop.raw_induct[where P = "\<lambda>b e p rf rt fa y. inUnit rf \<longrightarrow> inWindow rt \<longrightarrow>
   (\<forall>p. y = Inr p \<longrightarrow> inUnit (quota.remainingFraction p) \<and> inWindow (quota.resetTime p))",
   OF _ assms], goal_cases)
  case (1 loop buffer endp ptr rf rt foundAny y)
  have w: "\<And>a b d. parseResetTimeMessage buffer a b = Some (Some d) \<Longrightarrow> inWindow (Some d)"
    by (drule parseResetTimeMessage_range) auto
  from 1 w show ?case
    by (auto simp add: Let_def split: if_splits prod.splits sum.splits option.splits)
qed

lemma parseInnerQuotaMessage_inv:
  assumes "parseInnerQuotaMessage buffer start endp = Some (Inr p)"
  shows "inUnit (quota.remainingFraction p) \<and> inWindow (quota.resetTime p)"
  using parseInnerLoop_inv_aux[OF assms[unfolded parseInnerQuotaMessage_def]] by simp

text \<open>
  What the search for one label does to the quota map: nothing, or it stores the record
  made from a sub-message that \<open>parseInnerQuotaMessage\<close> accepted, with the correction for
  an omitted fraction.
\<close>

lemma searchLoop_result:
  assumes "searchLoop buffer lbl searchPtr searchLimit quotaMap = Some quotaMap'"
  shows "quotaMap' = quotaMap \<or>
     (\<exists>start endp p. parseInnerQuotaMessage buffer start endp = Some (Inr p) \<and> found p \<and>
        quotaMap' = quotaMap(lbl \<mapsto>
          \<lparr>quota.remainingFraction =
             (if quota.remainingFraction p = None \<and> quota.resetTime p \<noteq> None
              then Some (Finite 0) else quota.remainingFraction p),
           quota.resetTime = quota.resetTime p\<rparr>))"
proof (rule searchLoop.raw_induct[where P = "\<lambda>buffer lbl sp sl qm qm'. qm' = qm \<or>
     (\<exists>start endp p. parseInnerQuotaMessage buffer start endp = Some (Inr p) \<and> found p \<and>
        qm' = qm(lbl \<mapsto>
          \<lparr>quota.remainingFraction =
             (if quota.remainingFraction p = None \<and> quota.resetTime p \<noteq> None
              then Some (Finite 0) else quota.remainingFraction p),
           quota.resetTime = quota.resetTime p\<rparr>))", OF _ assms], goal_cases)
  case (1 loop buffer lbl searchPtr searchLimit quotaMap y)
  note eq = 1(2)
  have continue: "loop buffer lbl (searchPtr + 1) searchLimit quotaMap = Some y \<Longrightarrow> ?case"
    by (rule 1(1))
  let ?start = "searchPtr + 1 + snd (readVarintTuple buffer (searchPtr + 1))"
  let ?end = "?start + sint (fst (readVarintTuple buffer (searchPtr + 1)))"
  show ?case
  proof (cases "searchPtr < searchLimit")
    case False
    with eq show ?thesis by simp
  next
    case inside: True
    show ?thesis
    proof (cases "byteAt buffer searchPtr = Some 0x7a \<and> ?end \<le> int (length buffer)")
      case False
      with inside eq have "loop buffer lbl (searchPtr + 1) searchLimit quotaMap = Some y"
        by (auto simp add: Let_def split_def split: if_splits)
      then show ?thesis by (rule continue)
    next
      case True
      show ?thesis
      proof (cases "parseInnerQuotaMessage buffer ?start ?end")
        case None
        with True inside eq show ?thesis by (simp add: Let_def split_def)
      next
        case (Some r)
        show ?thesis
        proof (cases r)
          case (Inl e)
          with Some True inside eq
          have "loop buffer lbl (searchPtr + 1) searchLimit quotaMap = Some y"
            by (simp add: Let_def split_def)
          then show ?thesis by (rule continue)
        next
          case (Inr p)
          show ?thesis
          proof (cases "found p")
            case False
            with Inr Some True inside eq
            have "loop buffer lbl (searchPtr + 1) searchLimit quotaMap = Some y"
              by (simp add: Let_def split_def)
            then show ?thesis by (rule continue)
          next
            case f: True
            with Inr Some True inside eq have "y = quotaMap \<or> y = quotaMap(lbl \<mapsto>
                \<lparr>quota.remainingFraction =
                   (if quota.remainingFraction p = None \<and> quota.resetTime p \<noteq> None
                    then Some (Finite 0) else quota.remainingFraction p),
                 quota.resetTime = quota.resetTime p\<rparr>)"
              by (auto simp add: Let_def split_def split: if_splits)
            with Some Inr f show ?thesis by blast
          qed
        qed
      qed
    qed
  qed
qed

lemma byteAt_in_set: "byteAt buffer i = Some b \<Longrightarrow> b \<in> set buffer"
  by (auto simp add: byteAt_def split: if_splits)

text \<open>Without a byte \<open>0x7A\<close> in the buffer the search returns and stores nothing.\<close>

lemma searchLoop_no_tag:
  assumes "0x7a \<notin> set buffer"
  shows "searchLoop buffer lbl searchPtr searchLimit quotaMap = Some quotaMap"
proof (induction "nat (searchLimit - searchPtr)" arbitrary: searchPtr)
  case 0
  then show ?case by (subst searchLoop.simps) simp
next
  case (Suc n)
  then have "n = nat (searchLimit - (searchPtr + 1))" and lt: "searchPtr < searchLimit" by auto
  from Suc.hyps(1)[OF this(1)]
  have rest: "searchLoop buffer lbl (searchPtr + 1) searchLimit quotaMap = Some quotaMap" .
  have "byteAt buffer searchPtr \<noteq> Some 0x7a"
    using assms byteAt_in_set by blast
  with lt rest show ?case by (subst searchLoop.simps) simp
qed

lemma parseLabels_no_tag:
  assumes "0x7a \<notin> set buffer"
  shows "parseLabels buffer labels quotaMap = Some quotaMap"
  by (induction labels) (simp_all add: Let_def searchLoop_no_tag[OF assms])

lemma parseLabels_result:
  assumes "parseLabels buffer labels quotaMap = Some quotaMap'" and "quotaMap' l = Some q"
  shows "quotaMap l = Some q \<or>
     (\<exists>start endp p. parseInnerQuotaMessage buffer start endp = Some (Inr p) \<and> found p \<and>
        q = \<lparr>quota.remainingFraction =
               (if quota.remainingFraction p = None \<and> quota.resetTime p \<noteq> None
                then Some (Finite 0) else quota.remainingFraction p),
             quota.resetTime = quota.resetTime p\<rparr>)"
  using assms
proof (induction labels arbitrary: quotaMap)
  case Nil
  then show ?case by simp
next
  case (Cons lbl labels)
  show ?case
  proof (cases "indexOf buffer (bytesOf lbl) \<noteq> - 1")
    case False
    with Cons.prems have "parseLabels buffer labels quotaMap = Some quotaMap'" by simp
    from Cons.IH[OF this Cons.prems(2)] show ?thesis .
  next
    case True
    let ?sp = "indexOf buffer (bytesOf lbl) + int (length lbl)"
    let ?sl = "min (int (length buffer)) (?sp + 500)"
    from True Cons.prems(1) obtain qm where
      s: "searchLoop buffer lbl ?sp ?sl quotaMap = Some qm" and
      r: "parseLabels buffer labels qm = Some quotaMap'"
      by (auto simp add: Let_def split: option.splits)
    from Cons.IH[OF r Cons.prems(2)] show ?thesis
    proof
      assume old: "qm l = Some q"
      from searchLoop_result[OF s] show ?thesis
      proof
        assume "qm = quotaMap"
        with old show ?thesis by simp
      next
        assume "\<exists>start endp p. parseInnerQuotaMessage buffer start endp = Some (Inr p) \<and> found p \<and>
          qm = quotaMap(lbl \<mapsto>
            \<lparr>quota.remainingFraction =
               (if quota.remainingFraction p = None \<and> quota.resetTime p \<noteq> None
                then Some (Finite 0) else quota.remainingFraction p),
             quota.resetTime = quota.resetTime p\<rparr>)"
        then obtain start endp p where
          p: "parseInnerQuotaMessage buffer start endp = Some (Inr p)" "found p" and
          qm: "qm = quotaMap(lbl \<mapsto>
            \<lparr>quota.remainingFraction =
               (if quota.remainingFraction p = None \<and> quota.resetTime p \<noteq> None
                then Some (Finite 0) else quota.remainingFraction p),
             quota.resetTime = quota.resetTime p\<rparr>)"
          by blast
        show ?thesis
        proof (cases "l = lbl")
          case True
          with old qm have "q = \<lparr>quota.remainingFraction =
               (if quota.remainingFraction p = None \<and> quota.resetTime p \<noteq> None
                then Some (Finite 0) else quota.remainingFraction p),
             quota.resetTime = quota.resetTime p\<rparr>"
            by simp
          with p show ?thesis by blast
        next
          case False
          with old qm show ?thesis by simp
        qed
      qed
    next
      assume "\<exists>start endp p. parseInnerQuotaMessage buffer start endp = Some (Inr p) \<and> found p \<and>
        q = \<lparr>quota.remainingFraction =
               (if quota.remainingFraction p = None \<and> quota.resetTime p \<noteq> None
                then Some (Finite 0) else quota.remainingFraction p),
             quota.resetTime = quota.resetTime p\<rparr>"
      then show ?thesis by blast
    qed
  qed
qed

lemma parseQuotaFields_result:
  assumes "parseQuotaFields buffer = Some quotaInfo" and "quotaInfo l = Some q"
  shows "\<exists>start endp p. parseInnerQuotaMessage buffer start endp = Some (Inr p) \<and> found p \<and>
        q = \<lparr>quota.remainingFraction =
               (if quota.remainingFraction p = None \<and> quota.resetTime p \<noteq> None
                then Some (Finite 0) else quota.remainingFraction p),
             quota.resetTime = quota.resetTime p\<rparr>"
  using parseLabels_result[OF assms[unfolded parseQuotaFields_def]] by simp

lemma parseQuotaFields_ranges:
  assumes "parseQuotaFields buffer = Some quotaInfo" and "quotaInfo l = Some q"
  shows "inUnit (quota.remainingFraction q) \<and> inWindow (quota.resetTime q) \<and>
     (quota.resetTime q \<noteq> None \<longrightarrow> quota.remainingFraction q \<noteq> None)"
proof -
  from parseQuotaFields_result[OF assms] obtain start endp p where
    p: "parseInnerQuotaMessage buffer start endp = Some (Inr p)" and
    q: "q = \<lparr>quota.remainingFraction =
               (if quota.remainingFraction p = None \<and> quota.resetTime p \<noteq> None
                then Some (Finite 0) else quota.remainingFraction p),
             quota.resetTime = quota.resetTime p\<rparr>"
    by blast
  from parseInnerQuotaMessage_inv[OF p] show ?thesis
    by (auto simp add: q)
qed

subsection \<open>The entries of the snapshot\<close>

lemma extractModelQuotas_entries:
  assumes "extractModelQuotas now buffer = Some ms"
  shows "\<exists>quotaInfo. parseQuotaFields buffer = Some quotaInfo \<and>
     ms = map (\<lambda>lbl. makeModel now lbl (quotaInfo lbl)) (detectedModels buffer)"
  using assms by (auto simp add: extractModelQuotas_def split: option.splits)

lemma makeModel_label [simp]: "label (makeModel now lbl q) = lbl"
  by (simp add: makeModel_def Let_def)

lemma makeModel_None:
  "makeModel now lbl None =
     \<lparr>label = lbl, modelId = modelIdOf lbl, remainingFraction = None,
      remainingPercentage = None, isExhausted = False, resetTime = now, timeUntilReset = 0\<rparr>"
  by (simp add: makeModel_def)

lemma makeModel_fields:
  "remainingFraction (makeModel now lbl q) =
     (case q of None \<Rightarrow> None | Some x \<Rightarrow> quota.remainingFraction x)"
  "isExhausted (makeModel now lbl q) = (remainingFraction (makeModel now lbl q) = Some (Finite 0))"
  "resetTime (makeModel now lbl q) =
     (case q of None \<Rightarrow> now
      | Some x \<Rightarrow> (case quota.resetTime x of None \<Rightarrow> now | Some d \<Rightarrow> d))"
  by (simp_all add: makeModel_def Let_def split: option.split)

lemma extractModelQuotas_member:
  assumes "extractModelQuotas now buffer = Some ms" and "m \<in> set ms"
  shows "\<exists>quotaInfo lbl. parseQuotaFields buffer = Some quotaInfo \<and>
     lbl \<in> set (detectedModels buffer) \<and> m = makeModel now lbl (quotaInfo lbl)"
proof -
  from extractModelQuotas_entries[OF assms(1)] obtain quotaInfo where
    q: "parseQuotaFields buffer = Some quotaInfo" and
    ms: "ms = map (\<lambda>lbl. makeModel now lbl (quotaInfo lbl)) (detectedModels buffer)"
    by blast
  from assms(2) ms obtain lbl where "lbl \<in> set (detectedModels buffer)"
    and "m = makeModel now lbl (quotaInfo lbl)"
    by auto
  with q show ?thesis by blast
qed

text \<open>
  C1, as the code has it. The snapshot has one entry for every detected label, in the
  order of the pattern list, whether or not a quota was found for it; an entry whose label
  has no quota record is a placeholder: no fraction and no percentage, not exhausted, the
  reset time set to the time the snapshot is built. When the buffer holds no byte \<open>0x7A\<close>
  the parser returns, no label has a quota record, and every detected label gets such a
  placeholder.
\<close>

theorem label_without_quota_is_placeholder:
  "(extractModelQuotas now buffer = Some ms \<longrightarrow> map label ms = detectedModels buffer) \<and>
   (extractModelQuotas now buffer = Some ms \<and> parseQuotaFields buffer = Some quotaInfo \<and>
    m \<in> set ms \<and> quotaInfo (label m) = None \<longrightarrow>
      m = \<lparr>label = label m, modelId = modelIdOf (label m), remainingFraction = None,
           remainingPercentage = None, isExhausted = False, resetTime = now,
           timeUntilReset = 0\<rparr>) \<and>
   (0x7a \<notin> set buffer \<longrightarrow>
      parseQuotaFields buffer = Some Map.empty \<and>
      extractModelQuotas now buffer =
        Some (map (\<lambda>lbl. \<lparr>label = lbl, modelId = modelIdOf lbl, remainingFraction = None,
                          remainingPercentage = None, isExhausted = False, resetTime = now,
                          timeUntilReset = 0\<rparr>) (detectedModels buffer)))"
proof (intro conjI impI)
  assume "extractModelQuotas now buffer = Some ms"
  from extractModelQuotas_entries[OF this] show "map label ms = detectedModels buffer"
    by (auto simp add: comp_def)
next
  assume a: "extractModelQuotas now buffer = Some ms \<and> parseQuotaFields buffer = Some quotaInfo \<and>
    m \<in> set ms \<and> quotaInfo (label m) = None"
  with extractModelQuotas_member[of now buffer ms m] obtain lbl where
    m: "m = makeModel now lbl (quotaInfo lbl)"
    by auto
  then have l: "label m = lbl" by simp
  with a m have "m = makeModel now lbl None" by simp
  with l show "m = \<lparr>label = label m, modelId = modelIdOf (label m), remainingFraction = None,
           remainingPercentage = None, isExhausted = False, resetTime = now,
           timeUntilReset = 0\<rparr>"
    by (simp add: makeModel_None)
next
  assume n: "0x7a \<notin> set buffer"
  then show q: "parseQuotaFields buffer = Some Map.empty"
    by (simp add: parseQuotaFields_def parseLabels_no_tag)
  then show "extractModelQuotas now buffer =
        Some (map (\<lambda>lbl. \<lparr>label = lbl, modelId = modelIdOf lbl, remainingFraction = None,
                          remainingPercentage = None, isExhausted = False, resetTime = now,
                          timeUntilReset = 0\<rparr>) (detectedModels buffer))"
    by (simp add: extractModelQuotas_def makeModel_None)
qed

lemmas reader_defs = parseUserStatusProto_def extractModelQuotas_def parseQuotaFields_def
  modelLabels_def detectedModels_def modelPatterns_def makeModel_def modelIdOf_def
  toLowerCase_def slugChar_def extractPlanName_def planPatterns_def bytesOf_def indexOf_def
  searchLoop.simps parseInnerQuotaMessage_def parseInnerLoop.simps parseResetTimeMessage_def
  parseResetTimeLoop.simps readVarintTuple_def readVarintLoop.simps byteAt_def toInt32_def
  readFloatLE_def float32Value_def skipField_def Let_def

lemma detected_flash: "detectedModels (bytesOf ''Gemini 3 Flash'') = [''Gemini 3 Flash'']"
  by (simp add: detectedModels_def modelPatterns_def bytesOf_def)

theorem label_without_quota_is_placeholder_witness:
  "0x7a \<notin> set (bytesOf ''Gemini 3 Flash'') \<and>
   parseQuotaFields (bytesOf ''Gemini 3 Flash'') = Some Map.empty \<and>
   extractModelQuotas 5 (bytesOf ''Gemini 3 Flash'') =
     Some [\<lparr>label = ''Gemini 3 Flash'', modelId = modelIdOf ''Gemini 3 Flash'',
            remainingFraction = None, remainingPercentage = None, isExhausted = False,
            resetTime = 5, timeUntilReset = 0\<rparr>]"
proof -
  have n: "0x7a \<notin> set (bytesOf ''Gemini 3 Flash'')"
    by (simp add: bytesOf_def)
  from label_without_quota_is_placeholder[of 5 "bytesOf ''Gemini 3 Flash''" "[]" Map.empty undefined]
    n detected_flash show ?thesis by simp
qed

text \<open>
  C1 as stated fails: for the blob that is just the label, the sequence of models is not
  empty; it holds the placeholder entry of the label.
\<close>

theorem only_label_counterexample:
  "parseUserStatusProto 0 (bytesOf ''Gemini 3 Flash'') =
     Some \<lparr>timestamp = 0,
            models = [\<lparr>label = ''Gemini 3 Flash'', modelId = ''gemini-3-flash'',
                       remainingFraction = None, remainingPercentage = None,
                       isExhausted = False, resetTime = 0, timeUntilReset = 0\<rparr>],
            planName = None\<rparr>"
  by (simp add: reader_defs char_of_eq_iff)

subsection \<open>The search after a label\<close>












lemma indexOfFrom_prefix:
  "indexOfFrom xs pat i = j \<Longrightarrow> j \<noteq> - 1 \<Longrightarrow> 0 \<le> i \<Longrightarrow>
   i \<le> j \<and> prefix pat (drop (nat (j - i)) xs)"
proof (induction xs arbitrary: i)
  case Nil
  then show ?case by (auto split: if_splits)
next
  case (Cons x xs)
  show ?case
  proof (cases "prefix pat (x # xs)")
    case True
    with Cons.prems show ?thesis by simp
  next
    case False
    with Cons.prems have r: "indexOfFrom xs pat (i + 1) = j" by simp
    from Cons.IH[OF r Cons.prems(2)] Cons.prems(3)
    have le: "i + 1 \<le> j" and p: "prefix pat (drop (nat (j - (i + 1))) xs)" by simp_all
    from le have "nat (j - i) = Suc (nat (j - (i + 1)))" by simp
    with p le show ?thesis by simp
  qed
qed

lemma indexOf_prefix:
  "indexOf buffer pat \<noteq> - 1 \<Longrightarrow> prefix pat (drop (nat (indexOf buffer pat)) buffer)"
  using indexOfFrom_prefix[of buffer pat 0 "indexOf buffer pat"] by (simp add: indexOf_def)

text \<open>
  Every label but \<open>Claude Sonnet 4.5\<close> has a literal pattern, which matches wherever the
  label's text occurs.
\<close>

lemma ownOccurrence_literal:
  assumes "indexOf buffer (bytesOf lbl) \<noteq> - 1" and "lbl \<noteq> ''Claude Sonnet 4.5''"
  shows "ownOccurrence buffer lbl"
  using indexOf_prefix[OF assms(1)] assms(2)
  by (simp add: ownOccurrence_def modelPatterns_def)













subsection \<open>The remaining fraction\<close>

lemma quota_ranges_of_member:
  assumes "extractModelQuotas now buffer = Some ms" and "m \<in> set ms"
  shows "inUnit (remainingFraction m) \<and> (resetTime m = now \<or> inWindow (Some (resetTime m))) \<and>
     isExhausted m = (remainingFraction m = Some (Finite 0))"
proof -
  from extractModelQuotas_member[OF assms] obtain quotaInfo lbl where
    q: "parseQuotaFields buffer = Some quotaInfo" and
    m: "m = makeModel now lbl (quotaInfo lbl)"
    by blast
  show ?thesis
  proof (cases "quotaInfo lbl")
    case None
    with m show ?thesis by (simp add: makeModel_None)
  next
    case (Some x)
    from parseQuotaFields_ranges[OF q Some]
    have r: "inUnit (quota.remainingFraction x)" "inWindow (quota.resetTime x)" by simp_all
    from r show ?thesis
      unfolding m Some by (cases "quota.resetTime x") (simp_all add: makeModel_fields)
  qed
qed





subsection \<open>The reset time\<close>






subsection \<open>The correction for an omitted fraction\<close>

text \<open>The search at a byte \<open>0x7A\<close> whose sub-message the inner parser accepts.\<close>

lemma searchLoop_accepts:
  assumes "searchPtr < searchLimit" and "byteAt buffer searchPtr = Some 0x7a"
    and "searchPtr + 1 + snd (readVarintTuple buffer (searchPtr + 1))
           + sint (fst (readVarintTuple buffer (searchPtr + 1))) \<le> int (length buffer)"
    and "parseInnerQuotaMessage buffer
           (searchPtr + 1 + snd (readVarintTuple buffer (searchPtr + 1)))
           (searchPtr + 1 + snd (readVarintTuple buffer (searchPtr + 1))
              + sint (fst (readVarintTuple buffer (searchPtr + 1)))) = Some (Inr p)"
    and "found p"
  shows "searchLoop buffer lbl searchPtr searchLimit quotaMap =
     Some (if quota.remainingFraction p = None \<and> quota.resetTime p = None then quotaMap
           else quotaMap(lbl \<mapsto>
             \<lparr>quota.remainingFraction =
                (if quota.remainingFraction p = None \<and> quota.resetTime p \<noteq> None
                 then Some (Finite 0) else quota.remainingFraction p),
              quota.resetTime = quota.resetTime p\<rparr>))"
  using assms by (subst searchLoop.simps) (auto simp add: Let_def split_def)

text \<open>
  C4. When the search for a label reaches a byte \<open>0x7A\<close> whose sub-message the inner
  parser accepts with a reset time and no fraction, the record stored for the label has
  the fraction 0 and that reset time. Every record in the quota map comes from an
  accepted sub-message in this way, so a record with a reset time always has a fraction.
  In the snapshot, an entry is exhausted exactly when its fraction is 0.
\<close>

theorem default_omission_correction:
  "(searchPtr < searchLimit \<and> byteAt buffer searchPtr = Some 0x7a \<and>
    searchPtr + 1 + snd (readVarintTuple buffer (searchPtr + 1))
       + sint (fst (readVarintTuple buffer (searchPtr + 1))) \<le> int (length buffer) \<and>
    parseInnerQuotaMessage buffer
       (searchPtr + 1 + snd (readVarintTuple buffer (searchPtr + 1)))
       (searchPtr + 1 + snd (readVarintTuple buffer (searchPtr + 1))
          + sint (fst (readVarintTuple buffer (searchPtr + 1)))) = Some (Inr p) \<and>
    found p \<and> quota.remainingFraction p = None \<and> quota.resetTime p = Some d \<longrightarrow>
      searchLoop buffer lbl searchPtr searchLimit quotaMap =
        Some (quotaMap(lbl \<mapsto>
          \<lparr>quota.remainingFraction = Some (Finite 0), quota.resetTime = Some d\<rparr>))) \<and>
   (parseQuotaFields buffer = Some quotaInfo \<and> quotaInfo l = Some q \<longrightarrow>
      (\<exists>a b r. parseInnerQuotaMessage buffer a b = Some (Inr r) \<and> found r \<and>
         q = \<lparr>quota.remainingFraction =
                (if quota.remainingFraction r = None \<and> quota.resetTime r \<noteq> None
                 then Some (Finite 0) else quota.remainingFraction r),
              quota.resetTime = quota.resetTime r\<rparr>) \<and>
      (quota.resetTime q \<noteq> None \<longrightarrow> quota.remainingFraction q \<noteq> None)) \<and>
   (extractModelQuotas now buffer = Some ms \<and> m \<in> set ms \<longrightarrow>
      isExhausted m = (remainingFraction m = Some (Finite 0)) \<and>
      (\<exists>quotaInfo. parseQuotaFields buffer = Some quotaInfo \<and>
         remainingFraction m =
           (case quotaInfo (label m) of None \<Rightarrow> None | Some x \<Rightarrow> quota.remainingFraction x)))"
proof (intro conjI impI)
  assume a: "searchPtr < searchLimit \<and> byteAt buffer searchPtr = Some 0x7a \<and>
    searchPtr + 1 + snd (readVarintTuple buffer (searchPtr + 1))
       + sint (fst (readVarintTuple buffer (searchPtr + 1))) \<le> int (length buffer) \<and>
    parseInnerQuotaMessage buffer
       (searchPtr + 1 + snd (readVarintTuple buffer (searchPtr + 1)))
       (searchPtr + 1 + snd (readVarintTuple buffer (searchPtr + 1))
          + sint (fst (readVarintTuple buffer (searchPtr + 1)))) = Some (Inr p) \<and>
    found p \<and> quota.remainingFraction p = None \<and> quota.resetTime p = Some d"
  then have "searchLoop buffer lbl searchPtr searchLimit quotaMap =
     Some (if quota.remainingFraction p = None \<and> quota.resetTime p = None then quotaMap
           else quotaMap(lbl \<mapsto>
             \<lparr>quota.remainingFraction =
                (if quota.remainingFraction p = None \<and> quota.resetTime p \<noteq> None
                 then Some (Finite 0) else quota.remainingFraction p),
              quota.resetTime = quota.resetTime p\<rparr>))"
    by (intro searchLoop_accepts) simp_all
  with a show "searchLoop buffer lbl searchPtr searchLimit quotaMap =
        Some (quotaMap(lbl \<mapsto>
          \<lparr>quota.remainingFraction = Some (Finite 0), quota.resetTime = Some d\<rparr>))"
    by simp
next
  assume a: "parseQuotaFields buffer = Some quotaInfo \<and> quotaInfo l = Some q"
  then show "\<exists>a b r. parseInnerQuotaMessage buffer a b = Some (Inr r) \<and> found r \<and>
         q = \<lparr>quota.remainingFraction =
                (if quota.remainingFraction r = None \<and> quota.resetTime r \<noteq> None
                 then Some (Finite 0) else quota.remainingFraction r),
              quota.resetTime = quota.resetTime r\<rparr>"
    using parseQuotaFields_result[of buffer quotaInfo l q] by blast
  assume "quota.resetTime q \<noteq> None"
  with a show "quota.remainingFraction q \<noteq> None"
    using parseQuotaFields_ranges[of buffer quotaInfo l q] by blast
next
  assume a: "extractModelQuotas now buffer = Some ms \<and> m \<in> set ms"
  then show "isExhausted m = (remainingFraction m = Some (Finite 0))"
    using quota_ranges_of_member[of now buffer ms m] by blast
  from a extractModelQuotas_member[of now buffer ms m] obtain quotaInfo lbl where
    q: "parseQuotaFields buffer = Some quotaInfo" and
    m: "m = makeModel now lbl (quotaInfo lbl)"
    by blast
  have "remainingFraction m =
      (case quotaInfo (label m) of None \<Rightarrow> None | Some x \<Rightarrow> quota.remainingFraction x)"
    unfolding m by (simp add: makeModel_fields)
  with q show "\<exists>quotaInfo. parseQuotaFields buffer = Some quotaInfo \<and>
         remainingFraction m =
           (case quotaInfo (label m) of None \<Rightarrow> None | Some x \<Rightarrow> quota.remainingFraction x)"
    by blast
qed

lemma exhausted_blob:
  "extractModelQuotas 0 (bytesOf ''Gemini 3 Flash'' @
       [0x7A, 8, 0x12, 6, 8, 0x80, 0x80, 0x80, 0xB0, 0x06]) =
     Some [\<lparr>label = ''Gemini 3 Flash'', modelId = ''gemini-3-flash'',
            remainingFraction = Some (Finite 0), remainingPercentage = Some (Finite 0),
            isExhausted = True, resetTime = 1711276032000, timeUntilReset = 1711276032000\<rparr>]"
  by (simp add: reader_defs char_of_eq_iff)

theorem default_omission_correction_witness:
  "extractModelQuotas 0 (bytesOf ''Gemini 3 Flash'' @
       [0x7A, 8, 0x12, 6, 8, 0x80, 0x80, 0x80, 0xB0, 0x06]) =
     Some [\<lparr>label = ''Gemini 3 Flash'', modelId = ''gemini-3-flash'',
            remainingFraction = Some (Finite 0), remainingPercentage = Some (Finite 0),
            isExhausted = True, resetTime = 1711276032000, timeUntilReset = 1711276032000\<rparr>] \<and>
   parseInnerQuotaMessage [0x7A, 8, 0x12, 6, 8, 0x80, 0x80, 0x80, 0xB0, 0x06] 2 10 =
     Some (Inr \<lparr>quota.remainingFraction = None, quota.resetTime = Some 1711276032000,
                 found = True\<rparr>) \<and>
   searchLoop [0x7A, 8, 0x12, 6, 8, 0x80, 0x80, 0x80, 0xB0, 0x06] ''x'' 0 10 Map.empty =
     Some [''x'' \<mapsto> \<lparr>quota.remainingFraction = Some (Finite 0),
                         quota.resetTime = Some 1711276032000\<rparr>]"
proof -
  let ?b = "[0x7A, 8, 0x12, 6, 8, 0x80, 0x80, 0x80, 0xB0, 0x06] :: buffer"
  have v: "readVarintTuple ?b 1 = (8, 1)"
    by (simp add: readVarintTuple_def readVarintLoop.simps byteAt_def toInt32_def)
  have p: "parseInnerQuotaMessage ?b 2 10 =
     Some (Inr \<lparr>quota.remainingFraction = None, quota.resetTime = Some 1711276032000,
                 found = True\<rparr>)"
    by (simp add: reader_defs)
  have h: "(0::int) < 10 \<and> byteAt ?b 0 = Some 0x7a \<and>
    0 + 1 + snd (readVarintTuple ?b (0 + 1)) + sint (fst (readVarintTuple ?b (0 + 1)))
      \<le> int (length ?b) \<and>
    parseInnerQuotaMessage ?b (0 + 1 + snd (readVarintTuple ?b (0 + 1)))
       (0 + 1 + snd (readVarintTuple ?b (0 + 1)) + sint (fst (readVarintTuple ?b (0 + 1))))
      = Some (Inr \<lparr>quota.remainingFraction = None, quota.resetTime = Some 1711276032000,
                 found = True\<rparr>) \<and>
    found \<lparr>quota.remainingFraction = None, quota.resetTime = Some 1711276032000, found = True\<rparr> \<and>
    quota.remainingFraction
      \<lparr>quota.remainingFraction = None, quota.resetTime = Some 1711276032000, found = True\<rparr> = None \<and>
    quota.resetTime
      \<lparr>quota.remainingFraction = None, quota.resetTime = Some 1711276032000, found = True\<rparr>
      = Some 1711276032000"
    using p by (simp add: v byteAt_def)
  note t = default_omission_correction[where searchPtr = 0 and searchLimit = 10 and buffer = ?b
      and p = "\<lparr>quota.remainingFraction = None, quota.resetTime = Some 1711276032000, found = True\<rparr>"
      and d = 1711276032000 and lbl = "''x''" and quotaMap = Map.empty,
      THEN conjunct1, rule_format, OF h]
  from t p exhausted_blob show ?thesis by simp
qed

subsection \<open>A walk that does not end\<close>

text \<open>
  A length that reads as a negative number moves the walk backwards. When field 2 of wire
  type 2 (tag byte \<open>0x12\<close>) has the length bytes \<open>FA FF FF FF 0F\<close>, which read as \<open>-6\<close>, the
  inner parser is back at the tag after the field, in the state it started from: it never
  returns, and neither does the reader on a blob that holds such a sub-message after a
  label.
\<close>

lemma parseInnerLoop_cycle:
  assumes tag: "readVarintTuple b0 p0 = (0x12, 1)"
    and len: "readVarintTuple b0 (p0 + 1) = (- 6, 5)"
    and inside: "p0 < e0"
    and ret: "parseInnerLoop buffer endp ptr rf rt foundAny = Some y"
  shows "\<not> (buffer = b0 \<and> endp = e0 \<and> ptr = p0)"
proof (rule parseInnerLoop.raw_induct[where P = "\<lambda>buffer endp ptr rf rt foundAny y.
    \<not> (buffer = b0 \<and> endp = e0 \<and> ptr = p0)", OF _ ret], goal_cases)
  case (1 loop buffer endp ptr rf rt foundAny y)
  show ?case
  proof
    assume a: "buffer = b0 \<and> endp = e0 \<and> ptr = p0"
    have r: "parseResetTimeMessage b0 (6 + p0) p0 = Some None"
      by (simp add: parseResetTimeMessage_def parseResetTimeLoop_end)
    from 1(2) a inside have "loop buffer endp ptr rf rt foundAny = Some y"
      by (simp add: tag len r)
    from 1(1)[OF this] a show False by simp
  qed
qed

lemma parseInnerQuotaMessage_diverges:
  assumes "readVarintTuple b0 p0 = (0x12, 1)" and "readVarintTuple b0 (p0 + 1) = (- 6, 5)"
    and "p0 < e0"
  shows "parseInnerQuotaMessage b0 p0 e0 = None"
proof (cases "parseInnerQuotaMessage b0 p0 e0")
  case (Some y)
  from parseInnerLoop_cycle[OF assms Some[unfolded parseInnerQuotaMessage_def]]
  show ?thesis by simp
qed simp

lemma reader_diverges:
  "parseUserStatusProto now
     (bytesOf ''Gemini 3 Flash'' @ [0x7A, 6, 0x12, 0xFA, 0xFF, 0xFF, 0xFF, 0x0F]) = None"
proof -
  let ?b = "bytesOf ''Gemini 3 Flash'' @ [0x7A, 6, 0x12, 0xFA, 0xFF, 0xFF, 0xFF, 0x0F]"
  have "readVarintTuple ?b 16 = (0x12, 1)" and "readVarintTuple ?b (16 + 1) = (- 6, 5)"
    by (simp_all add: bytesOf_def readVarintTuple_def readVarintLoop.simps byteAt_def toInt32_def)
  then have d: "parseInnerQuotaMessage ?b 16 22 = None"
    by (rule parseInnerQuotaMessage_diverges) simp
  have i: "indexOf ?b (bytesOf ''Gemini 3 Flash'') = 0"
    by (simp add: indexOf_def bytesOf_def)
  have l: "readVarintTuple ?b 15 = (6, 1)"
    by (simp add: bytesOf_def readVarintTuple_def readVarintLoop.simps byteAt_def toInt32_def)
  have z: "byteAt ?b 14 = Some 0x7a"
    by (simp add: byteAt_def bytesOf_def)
  have len: "length (bytesOf ''Gemini 3 Flash'') = 14"
    by (simp add: bytesOf_def)
  have s: "searchLoop ?b ''Gemini 3 Flash'' 14 22 quotaMap = None" for quotaMap
    by (subst searchLoop.simps) (simp add: z l d len)
  have n: "indexOf ?b (bytesOf lbl) = - 1"
    if "lbl \<in> {''Claude Opus 4.5 (Thinking)'', ''Claude Sonnet 4.5 (Thinking)'',
      ''Claude Sonnet 4.5'', ''Gemini 3 Pro (High)'', ''Gemini 3 Pro (Low)''}" for lbl
    using that by (auto simp add: indexOf_def bytesOf_def)
  have "parseQuotaFields ?b = None"
    by (simp add: parseQuotaFields_def modelLabels_def n i s len)
  then show ?thesis
    by (simp add: parseUserStatusProto_def extractModelQuotas_def)
qed

text \<open>
  A five-byte varint is read modulo \<open>2^32\<close>: here the encoded value is
  \<open>2^32 + 1711276032\<close>.
\<close>

lemma varint_read_modulo:
  "readVarintTuple [0x80, 0x80, 0x80, 0xB0, 0x16] 0 = (1711276032, 5)"
  by (simp add: readVarintTuple_def readVarintLoop.simps byteAt_def toInt32_def)

subsection \<open>A label inside another label\<close>

text \<open>
  In this blob \<open>Claude Sonnet 4.5 (Thinking)\<close> comes first, with the fraction 0.5, and
  \<open>Claude Sonnet 4.5\<close> second, with the fraction 0.25. The search for \<open>Claude Sonnet 4.5\<close>
  starts from the first occurrence of that text, which is inside the other label, and
  finds the other label's sub-message: both entries get 0.5.
\<close>

lemma label_inside_label:
  "\<not> ownOccurrence (bytesOf ''Claude Sonnet 4.5 (Thinking)'' @ [0x7A, 5, 0x0D, 0, 0, 0, 0x3F] @
       bytesOf ''Claude Sonnet 4.5'' @ [0x7A, 5, 0x0D, 0, 0, 0x80, 0x3E]) ''Claude Sonnet 4.5'' \<and>
   map_option (map (\<lambda>m. (label m, remainingFraction m)))
     (extractModelQuotas 0
       (bytesOf ''Claude Sonnet 4.5 (Thinking)'' @ [0x7A, 5, 0x0D, 0, 0, 0, 0x3F] @
        bytesOf ''Claude Sonnet 4.5'' @ [0x7A, 5, 0x0D, 0, 0, 0x80, 0x3E])) =
     Some [(''Claude Sonnet 4.5 (Thinking)'', Some (Finite (1 / 2))),
           (''Claude Sonnet 4.5'', Some (Finite (1 / 2)))]"
  by (simp add: reader_defs ownOccurrence_def)

section \<open>Properties of the refresh state machine\<close>

subsection \<open>The methods in closed form\<close>

lemma clearFetchTimeout_eq:
  "clearFetchTimeout s =
     s\<lparr>fetchTimeoutTimer := None, timers := cancel (fetchTimeoutTimer s) (timers s)\<rparr>"
  by (cases s) (simp add: clearFetchTimeout_def clearTimeout_def cancel_def split: option.split)

lemma clearClickTimer_eq:
  "clearClickTimer s =
     s\<lparr>clickTimer := None, clickCount := 0, timers := cancel (clickTimer s) (timers s)\<rparr>"
  by (cases s) (simp add: clearClickTimer_def clearTimeout_def cancel_def split: option.split)

lemma dispose_eq:
  "dispose s =
     s\<lparr>clickTimer := None, fetchTimeoutTimer := None, clickCount := 0, statusBarDisposed := True,
       timers := cancel (fetchTimeoutTimer s) (cancel (clickTimer s) (cancel (retryTimer s) (timers s)))\<rparr>"
  by (cases s)
    (simp add: dispose_def clearFetchTimeout_eq clearClickTimer_eq clearTimeout_def cancel_def
      split: option.split)

lemma cancel_None [simp]: "cancel None m = m"
  by (simp add: cancel_def)

lemmas provider_defs = setTimeout_def clearFetchTimeout_eq clearClickTimer_eq
  resetRefreshState_def fetchFailed_def fetchData_def fetchTimeoutFired_def refresh_def safeRefresh_def
  handleStatusBarClick_def clickTimerFired_def dispose_eq initialize_def Let_def

lemma fetchData_eq:
  "fetchData n s =
     s\<lparr>fetchTimeoutTimer := Some (nextTimer s),
       timers := (cancel (fetchTimeoutTimer s) (timers s))(nextTimer s \<mapsto> FetchTimeoutCallback),
       delays := (delays s)(nextTimer s \<mapsto> FETCH_TIMEOUT),
       nextTimer := nextTimer s + 1,
       inFlight := (inFlight s)(fetchInvocations s \<mapsto> n),
       fetchInvocations := fetchInvocations s + 1\<rparr>"
  by (simp add: provider_defs)

text \<open>
  A failing attempt, whatever the point of the \<open>try\<close> block at which the exception arose.
\<close>

lemma step_failure_retry:
  "inFlight s k = Some rc \<Longrightarrow> rc < 3 \<Longrightarrow> f \<in> {Failure, FailureAfterData, FailureAfterReset} \<Longrightarrow>
   step s (FetchCompletes k f) =
     s\<lparr>fetchTimeoutTimer := None,
       isRefreshing := isRefreshing s \<and> f \<noteq> FailureAfterReset,
       isManualRefresh := isManualRefresh s \<and> f \<noteq> FailureAfterReset,
       timers := (cancel (fetchTimeoutTimer s) (timers s))(nextTimer s \<mapsto> RetryCallback (rc + 1)),
       delays := (delays s)(nextTimer s \<mapsto> Millis 1000),
       nextTimer := nextTimer s + 1,
       inFlight := (inFlight s)(k := None),
       dataUpdates := dataUpdates s + (if f = Failure then 0 else 1)\<rparr>"
  by (auto simp add: provider_defs)

lemma step_failure_final:
  "inFlight s k = Some rc \<Longrightarrow> \<not> rc < 3 \<Longrightarrow> f \<in> {Failure, FailureAfterData, FailureAfterReset} \<Longrightarrow>
   step s (FetchCompletes k f) =
     s\<lparr>isManualRefresh := False, isRefreshing := False, fetchTimeoutTimer := None,
       timers := cancel (fetchTimeoutTimer s) (timers s),
       inFlight := (inFlight s)(k := None),
       dataUpdates := dataUpdates s + (if f = Failure then 0 else 1)\<rparr>"
  by (auto simp add: provider_defs)

lemma step_retry_fires:
  "timers s t = Some (RetryCallback n) \<Longrightarrow>
   step s (TimerFires t) = fetchData n (s\<lparr>timers := (timers s)(t := None)\<rparr>)"
  by simp

lemma cancel_Some: "cancel h m t = Some x \<Longrightarrow> m t = Some x"
  by (simp add: cancel_def split: option.splits if_splits)

subsection \<open>Retries\<close>

text \<open>
  One round: an attempt with \<open>retryCount < 3\<close> fails, which schedules the next attempt one
  second later, and that timeout fires.
\<close>

lemma retry_round:
  assumes "inFlight s k = Some rc" and "rc < 3"
    and "f \<in> {Failure, FailureAfterData, FailureAfterReset}"
  shows "timers (step s (FetchCompletes k f)) (nextTimer s) = Some (RetryCallback (rc + 1))"
    and "delays (step s (FetchCompletes k f)) (nextTimer s) = Some (Millis 1000)"
    and "isRefreshing (step s (FetchCompletes k f)) = (isRefreshing s \<and> f \<noteq> FailureAfterReset)"
    and "fetchInvocations (step s (FetchCompletes k f)) = fetchInvocations s"
    and "inFlight (step (step s (FetchCompletes k f)) (TimerFires (nextTimer s)))
           (fetchInvocations s) = Some (rc + 1)"
    and "fetchInvocations (step (step s (FetchCompletes k f)) (TimerFires (nextTimer s))) =
           fetchInvocations s + 1"
    and "nextTimer (step (step s (FetchCompletes k f)) (TimerFires (nextTimer s))) =
           nextTimer s + 2"
    and "dataUpdates (step (step s (FetchCompletes k f)) (TimerFires (nextTimer s))) =
           dataUpdates s + (if f = Failure then 0 else 1)"
    and "isRefreshing (step (step s (FetchCompletes k f)) (TimerFires (nextTimer s))) =
           (isRefreshing s \<and> f \<noteq> FailureAfterReset)"
    and "\<forall>t r. timers (step (step s (FetchCompletes k f)) (TimerFires (nextTimer s))) t
                  = Some (RetryCallback r) \<longrightarrow> timers s t = Some (RetryCallback r)"
proof -
  let ?s1 = "step s (FetchCompletes k f)"
  note e = step_failure_retry[OF assms]
  show t: "timers ?s1 (nextTimer s) = Some (RetryCallback (rc + 1))"
    by (subst e) simp
  show "delays ?s1 (nextTimer s) = Some (Millis 1000)"
    by (subst e) simp
  show "isRefreshing ?s1 = (isRefreshing s \<and> f \<noteq> FailureAfterReset)"
    by (subst e) simp
  show "fetchInvocations ?s1 = fetchInvocations s"
    by (subst e) simp
  note u = step_retry_fires[OF t] fetchData_eq
  show "inFlight (step ?s1 (TimerFires (nextTimer s))) (fetchInvocations s) = Some (rc + 1)"
    unfolding u by (simp add: e del: step.simps)
  show "fetchInvocations (step ?s1 (TimerFires (nextTimer s))) = fetchInvocations s + 1"
    unfolding u by (simp add: e del: step.simps)
  show "nextTimer (step ?s1 (TimerFires (nextTimer s))) = nextTimer s + 2"
    unfolding u by (simp add: e del: step.simps)
  show "dataUpdates (step ?s1 (TimerFires (nextTimer s))) =
      dataUpdates s + (if f = Failure then 0 else 1)"
    unfolding u by (simp add: e del: step.simps)
  show "isRefreshing (step ?s1 (TimerFires (nextTimer s))) =
      (isRefreshing s \<and> f \<noteq> FailureAfterReset)"
    unfolding u by (simp add: e del: step.simps)
  show "\<forall>t r. timers (step ?s1 (TimerFires (nextTimer s))) t = Some (RetryCallback r) \<longrightarrow>
      timers s t = Some (RetryCallback r)"
    unfolding u
    by (auto simp add: e simp del: step.simps split: if_splits dest: cancel_Some)
qed

lemma cancel_SomeD: "cancel h m t = Some x \<Longrightarrow> m t = Some x"
  by (simp add: cancel_def split: option.splits if_splits)

lemma fetchData_timers:
  "timers (fetchData n s) t = Some (RetryCallback r) \<Longrightarrow> timers s t = Some (RetryCallback r)"
  by (simp add: fetchData_eq cancel_def split: if_splits option.splits)

lemma fetchData_inFlight:
  "inFlight (fetchData n s) k = Some rc \<Longrightarrow> inFlight s k = Some rc \<or> rc = n"
  by (simp add: fetchData_eq split: if_splits)

lemma fetchCompleted_timers:
  "timers (fetchCompleted rc out s) t = Some (RetryCallback r) \<Longrightarrow>
   timers s t = Some (RetryCallback r) \<or> (rc < 3 \<and> r = rc + 1)"
  by (cases out) (simp_all add: provider_defs cancel_def split: if_splits option.splits)

lemma fetchCompleted_inFlight:
  "inFlight (fetchCompleted rc out s) k = inFlight s k"
  by (cases out) (simp_all add: provider_defs)

lemma clearClickTimer_timers:
  "timers (clearClickTimer s) t = Some x \<Longrightarrow> timers s t = Some x"
  by (auto simp add: clearClickTimer_eq dest: cancel_SomeD)

lemma resetRefreshState_timers:
  "timers (resetRefreshState s) t = Some x \<Longrightarrow> timers s t = Some x"
  by (auto simp add: resetRefreshState_def clearFetchTimeout_eq dest: cancel_SomeD)

lemma refresh_timers:
  "timers (refresh s) t = Some (RetryCallback r) \<Longrightarrow> timers s t = Some (RetryCallback r)"
  unfolding refresh_def by (drule fetchData_timers) simp

lemma safeRefresh_timers:
  "timers (safeRefresh s) t = Some (RetryCallback r) \<Longrightarrow> timers s t = Some (RetryCallback r)"
  unfolding safeRefresh_def
  by (drule fetchData_timers) (auto dest: resetRefreshState_timers split: if_splits)

lemma handleStatusBarClick_timers:
  "timers (handleStatusBarClick s) t = Some (RetryCallback r) \<Longrightarrow>
   timers s t = Some (RetryCallback r)"
  by (cases "clickTimer s")
     (auto simp add: handleStatusBarClick_def clearClickTimer_eq setTimeout_def Let_def
        split: if_splits dest: cancel_SomeD)

lemma clickTimerFired_timers:
  "timers (clickTimerFired s) t = Some (RetryCallback r) \<Longrightarrow>
   timers s t = Some (RetryCallback r)"
  unfolding clickTimerFired_def
  by (drule clearClickTimer_timers) (auto dest: refresh_timers split: if_splits)

lemma fetchTimeoutFired_timers:
  "timers (fetchTimeoutFired s) t = Some x \<Longrightarrow> timers s t = Some x"
  by (auto simp add: fetchTimeoutFired_def Let_def dest: resetRefreshState_timers split: if_splits)

lemma dispose_timers:
  "timers (dispose s) t = Some x \<Longrightarrow> timers s t = Some x"
  by (auto simp add: dispose_eq dest!: cancel_SomeD)

lemma fired_timers:
  "timers (s\<lparr>timers := (timers s)(u := None)\<rparr>) t = Some x \<Longrightarrow> timers s t = Some x"
  by (simp split: if_splits)

lemma step_timers:
  assumes a: "timers (step s e) t = Some (RetryCallback r)"
  shows "timers s t = Some (RetryCallback r) \<or>
     (\<exists>k rc. inFlight s k = Some rc \<and> rc < 3 \<and> r = rc + 1)"
proof (cases e)
  case (FetchCompletes k out)
  show ?thesis
  proof (cases "inFlight s k")
    case None
    with FetchCompletes a show ?thesis by simp
  next
    case (Some rc)
    with FetchCompletes a
    have "timers (fetchCompleted rc out (s\<lparr>inFlight := (inFlight s)(k := None)\<rparr>)) t = Some (RetryCallback r)"
      by simp
    from fetchCompleted_timers[OF this] Some show ?thesis by auto
  qed
next
  case (TimerFires u)
  show ?thesis
  proof (cases "timers s u")
    case None
    with TimerFires a show ?thesis by simp
  next
    case (Some cb)
    let ?s1 = "s\<lparr>timers := (timers s)(u := None)\<rparr>"
    have "timers ?s1 t = Some (RetryCallback r)"
    proof (cases cb)
      case ClickCallback
      with TimerFires a Some have "timers (clickTimerFired ?s1) t = Some (RetryCallback r)" by simp
      then show ?thesis by (rule clickTimerFired_timers)
    next
      case FetchTimeoutCallback
      with TimerFires a Some have "timers (fetchTimeoutFired ?s1) t = Some (RetryCallback r)" by simp
      then show ?thesis by (rule fetchTimeoutFired_timers)
    next
      case (RetryCallback n)
      with TimerFires a Some have "timers (fetchData n ?s1) t = Some (RetryCallback r)" by simp
      then show ?thesis by (rule fetchData_timers)
    qed
    then show ?thesis by (simp split: if_splits)
  qed
next
  case Click
  with a show ?thesis by (auto dest: handleStatusBarClick_timers)
next
  case RefreshCommand
  with a show ?thesis by (auto dest: refresh_timers)
next
  case SafeRefresh
  with a show ?thesis by (auto dest: safeRefresh_timers)
next
  case Dispose
  with a show ?thesis by (auto dest: dispose_timers)
qed

lemma step_inFlight:
  assumes a: "inFlight (step s e) k = Some rc"
  shows "inFlight s k = Some rc \<or> rc = 0 \<or> (\<exists>t. timers s t = Some (RetryCallback rc))"
proof (cases e)
  case (FetchCompletes k' out)
  with a show ?thesis
    by (cases "inFlight s k'") (simp_all add: fetchCompleted_inFlight split: if_splits)
next
  case (TimerFires u)
  show ?thesis
  proof (cases "timers s u")
    case None
    with TimerFires a show ?thesis by simp
  next
    case (Some cb)
    with TimerFires a show ?thesis
      by (cases cb)
         (auto simp add: clickTimerFired_def clearClickTimer_eq refresh_def fetchData_eq
            fetchTimeoutFired_def resetRefreshState_def clearFetchTimeout_eq Let_def
            split: if_splits)
  qed
next
  case Click
  with a show ?thesis
    by (cases "clickTimer s")
       (auto simp add: handleStatusBarClick_def clearClickTimer_eq setTimeout_def Let_def
          split: if_splits)
next
  case RefreshCommand
  with a show ?thesis by (auto simp add: refresh_def fetchData_eq split: if_splits)
next
  case SafeRefresh
  with a show ?thesis
    by (auto simp add: safeRefresh_def resetRefreshState_def clearFetchTimeout_eq fetchData_eq
          split: if_splits)
next
  case Dispose
  with a show ?thesis by (simp add: dispose_eq)
qed

lemma step_retriesBounded: "retriesBounded s \<Longrightarrow> retriesBounded (step s e)"
  unfolding retriesBounded_def
proof (intro conjI allI impI)
  assume b: "(\<forall>k rc. inFlight s k = Some rc \<longrightarrow> rc \<le> 3) \<and>
    (\<forall>t n. timers s t = Some (RetryCallback n) \<longrightarrow> n \<le> 3)"
  {
    fix k rc assume "inFlight (step s e) k = Some rc"
    from step_inFlight[OF this] b show "rc \<le> 3" by blast
  next
    fix t n assume "timers (step s e) t = Some (RetryCallback n)"
    from step_timers[OF this] b show "n \<le> 3" by fastforce
  }
qed

lemma foldl_retriesBounded: "retriesBounded s \<Longrightarrow> retriesBounded (foldl step s es)"
  by (induction es arbitrary: s) (simp_all add: step_retriesBounded)

lemma newProvider_retriesBounded: "retriesBounded newProvider"
  by (simp add: retriesBounded_def newProvider_def initialize_def fetchData_eq)

lemma run_retriesBounded: "retriesBounded (run es)"
  unfolding run_def by (rule foldl_retriesBounded) (rule newProvider_retriesBounded)

subsection \<open>Four failures in a row\<close>

lemma fetchData_facts:
  "inFlight (fetchData n s) (fetchInvocations s) = Some n \<and>
   fetchInvocations (fetchData n s) = fetchInvocations s + 1 \<and>
   nextTimer (fetchData n s) = nextTimer s + 1 \<and>
   dataUpdates (fetchData n s) = dataUpdates s \<and>
   isRefreshing (fetchData n s) = isRefreshing s"
  by (simp add: fetchData_eq)

lemma four_failures:
  fixes s :: provider
  assumes f: "{f1, f2, f3, f4} \<subseteq> {Failure, FailureAfterData, FailureAfterReset}"
  defines "n \<equiv> nextTimer s" and "k \<equiv> fetchInvocations s"
  defines "a1 \<equiv> step (fetchData 0 s) (FetchCompletes k f1)"
  defines "a2 \<equiv> step (step a1 (TimerFires (n + 1))) (FetchCompletes (k + 1) f2)"
  defines "a3 \<equiv> step (step a2 (TimerFires (n + 3))) (FetchCompletes (k + 2) f3)"
  defines "a4 \<equiv> step (step a3 (TimerFires (n + 5))) (FetchCompletes (k + 3) f4)"
  shows "timers a1 (n + 1) = Some (RetryCallback 1) \<and> delays a1 (n + 1) = Some (Millis 1000) \<and>
     timers a2 (n + 3) = Some (RetryCallback 2) \<and> delays a2 (n + 3) = Some (Millis 1000) \<and>
     timers a3 (n + 5) = Some (RetryCallback 3) \<and> delays a3 (n + 5) = Some (Millis 1000) \<and>
     isRefreshing a3 = (isRefreshing s \<and> FailureAfterReset \<notin> {f1, f2, f3}) \<and>
     fetchInvocations a3 = k + 3 \<and>
     inFlight (step a3 (TimerFires (n + 5))) (k + 3) = Some 3 \<and>
     fetchInvocations (step a3 (TimerFires (n + 5))) = k + 4 \<and>
     \<not> isRefreshing a4 \<and> \<not> isManualRefresh a4 \<and> fetchTimeoutTimer a4 = None \<and>
     fetchInvocations a4 = k + 4 \<and>
     dataUpdates a4 = dataUpdates s + length (filter (\<lambda>f. f \<noteq> Failure) [f1, f2, f3, f4]) \<and>
     (\<forall>t r. timers a4 t = Some (RetryCallback r) \<longrightarrow> timers s t = Some (RetryCallback r))"
proof -
  define s0 where "s0 = fetchData 0 s"
  define s1 where "s1 = step a1 (TimerFires (n + 1))"
  define s2 where "s2 = step a2 (TimerFires (n + 3))"
  define s3 where "s3 = step a3 (TimerFires (n + 5))"
  from f have f1: "f1 \<in> {Failure, FailureAfterData, FailureAfterReset}"
    and f2: "f2 \<in> {Failure, FailureAfterData, FailureAfterReset}"
    and f3: "f3 \<in> {Failure, FailureAfterData, FailureAfterReset}"
    and f4: "f4 \<in> {Failure, FailureAfterData, FailureAfterReset}"
    by simp_all
  have p0: "inFlight s0 k = Some 0" "fetchInvocations s0 = k + 1" "nextTimer s0 = n + 1"
    "dataUpdates s0 = dataUpdates s" "isRefreshing s0 = isRefreshing s"
    using fetchData_facts[of 0 s] by (simp_all add: s0_def n_def k_def)
  have r0: "\<And>t r. timers s0 t = Some (RetryCallback r) \<Longrightarrow> timers s t = Some (RetryCallback r)"
    unfolding s0_def by (rule fetchData_timers)
  have a1: "a1 = step s0 (FetchCompletes k f1)" by (simp add: a1_def s0_def)
  note R1 = retry_round[OF p0(1) _ f1, unfolded p0 a1[symmetric] s1_def[symmetric], simplified]
  have p1: "inFlight s1 (k + 1) = Some 1" "fetchInvocations s1 = k + 2" "nextTimer s1 = n + 3"
    "dataUpdates s1 = dataUpdates s + (if f1 = Failure then 0 else 1)"
    "isRefreshing s1 = (isRefreshing s \<and> f1 \<noteq> FailureAfterReset)"
    using R1 by simp_all
  have a2: "a2 = step s1 (FetchCompletes (k + 1) f2)" by (simp add: a2_def s1_def)
  note R2 = retry_round[OF p1(1) _ f2, unfolded p1 a2[symmetric] s2_def[symmetric], simplified]
  have p2: "inFlight s2 (k + 2) = Some 2" "fetchInvocations s2 = k + 3" "nextTimer s2 = n + 5"
    "dataUpdates s2 = dataUpdates s + (if f1 = Failure then 0 else 1) + (if f2 = Failure then 0 else 1)"
    "isRefreshing s2 = (isRefreshing s \<and> f1 \<noteq> FailureAfterReset \<and> f2 \<noteq> FailureAfterReset)"
    using R2 by (simp_all add: numeral_Bit0 numeral_Bit1)
  have a3: "a3 = step s2 (FetchCompletes (k + 2) f3)" by (simp add: a3_def s2_def)
  note R3 = retry_round[OF p2(1) _ f3, unfolded p2 a3[symmetric] s3_def[symmetric], simplified]
  have p3: "inFlight s3 (k + 3) = Some 3" "fetchInvocations s3 = k + 4" "nextTimer s3 = n + 7"
    "dataUpdates s3 = dataUpdates s + (if f1 = Failure then 0 else 1) + (if f2 = Failure then 0 else 1)
       + (if f3 = Failure then 0 else 1)"
    using R3 by simp_all
  have a4: "a4 = step s3 (FetchCompletes (k + 3) f4)" by (simp add: a4_def s3_def)
  have e4: "a4 = s3\<lparr>isManualRefresh := False, isRefreshing := False, fetchTimeoutTimer := None,
       timers := cancel (fetchTimeoutTimer s3) (timers s3),
       inFlight := (inFlight s3)(k + 3 := None),
       dataUpdates := dataUpdates s3 + (if f4 = Failure then 0 else 1)\<rparr>"
    unfolding a4 using step_failure_final[OF p3(1) _ f4] by (simp del: step.simps)
  have r4: "\<And>t r. timers a4 t = Some (RetryCallback r) \<Longrightarrow> timers s t = Some (RetryCallback r)"
  proof -
    fix t r assume "timers a4 t = Some (RetryCallback r)"
    then have "timers s3 t = Some (RetryCallback r)" by (auto simp add: e4 dest: cancel_SomeD)
    then show "timers s t = Some (RetryCallback r)" using R3 R2 R1 r0 by blast
  qed
  have d: "dataUpdates a4 = dataUpdates s + length (filter (\<lambda>f. f \<noteq> Failure) [f1, f2, f3, f4])"
    by (simp add: e4 p3)
  have fl: "\<not> isRefreshing a4" "\<not> isManualRefresh a4" "fetchTimeoutTimer a4 = None"
    "fetchInvocations a4 = k + 4"
    by (simp_all add: e4 p3)
  have t: "timers a1 (n + 1) = Some (RetryCallback 1)" "delays a1 (n + 1) = Some (Millis 1000)"
    "timers a2 (n + 3) = Some (RetryCallback 2)" "delays a2 (n + 3) = Some (Millis 1000)"
    "timers a3 (n + 5) = Some (RetryCallback 3)" "delays a3 (n + 5) = Some (Millis 1000)"
    "fetchInvocations a3 = k + 3"
    using R1 R2 R3 by simp_all
  have ir: "isRefreshing a3 = (isRefreshing s \<and> FailureAfterReset \<notin> {f1, f2, f3})"
    using R3 by auto
  from t ir p3(1,2) fl d r4 show ?thesis
    unfolding s3_def by blast
qed

text \<open>
  C5, as the code has it. \<open>fetchData\<close> retries while \<open>retryCount < 3\<close>: a refresh makes up
  to four attempts (retry counts 0 to 3). From any state \<open>s\<close>, let the attempt started by
  \<open>fetchData(0)\<close> and its retries all fail, each at any point of the \<open>try\<close> block. Each of the
  first three failures schedules the next attempt by a timeout of 1000 milliseconds, the
  same for every retry. After three failures the third retry is pending, and the
  refreshing flag is as it was in \<open>s\<close> unless one of the failures came after the reset of
  the refresh state; that retry fires and starts the fourth attempt. After the fourth
  failure both flags are reset, the fetch timeout is cleared, \<open>fetchData\<close> has run four
  times, and no retry is pending that was not pending in \<open>s\<close>. The usage data were assigned
  once for every failure that came after their assignment: not at all when every attempt
  failed before. In no run is there a fetch with a retry count above 3.
\<close>

theorem retry_policy:
  fixes s :: provider
  assumes "{fa, fb, fc, fd} \<subseteq> {Failure, FailureAfterData, FailureAfterReset}"
  defines "n \<equiv> nextTimer s" and "k \<equiv> fetchInvocations s"
  defines "a1 \<equiv> step (fetchData 0 s) (FetchCompletes k fa)"
  defines "a2 \<equiv> step (step a1 (TimerFires (n + 1))) (FetchCompletes (k + 1) fb)"
  defines "a3 \<equiv> step (step a2 (TimerFires (n + 3))) (FetchCompletes (k + 2) fc)"
  defines "a4 \<equiv> step (step a3 (TimerFires (n + 5))) (FetchCompletes (k + 3) fd)"
  shows "timers a1 (n + 1) = Some (RetryCallback 1) \<and> delays a1 (n + 1) = Some (Millis 1000) \<and>
     timers a2 (n + 3) = Some (RetryCallback 2) \<and> delays a2 (n + 3) = Some (Millis 1000) \<and>
     timers a3 (n + 5) = Some (RetryCallback 3) \<and> delays a3 (n + 5) = Some (Millis 1000) \<and>
     isRefreshing a3 = (isRefreshing s \<and> FailureAfterReset \<notin> {fa, fb, fc}) \<and>
     fetchInvocations a3 = k + 3 \<and>
     inFlight (step a3 (TimerFires (n + 5))) (k + 3) = Some 3 \<and>
     fetchInvocations (step a3 (TimerFires (n + 5))) = k + 4 \<and>
     \<not> isRefreshing a4 \<and> \<not> isManualRefresh a4 \<and> fetchTimeoutTimer a4 = None \<and>
     fetchInvocations a4 = k + 4 \<and>
     dataUpdates a4 = dataUpdates s + length (filter (\<lambda>f. f \<noteq> Failure) [fa, fb, fc, fd]) \<and>
     (\<forall>t r. timers a4 t = Some (RetryCallback r) \<longrightarrow> timers s t = Some (RetryCallback r)) \<and>
     retriesBounded (run es)"
  using four_failures[OF assms(1), of s] run_retriesBounded[of es]
  unfolding n_def k_def a1_def a2_def a3_def a4_def by blast

lemmas run_defs = run_def newProvider_def provider_defs cancel_def

theorem retry_policy_witness:
  "{Failure, FailureAfterData, FailureAfterReset, Failure}
     \<subseteq> {Failure, FailureAfterData, FailureAfterReset} \<and>
   timers (step (fetchData 0 (run [FetchCompletes 0 Success])) (FetchCompletes 1 Failure)) 2
     = Some (RetryCallback 1) \<and>
   delays (step (fetchData 0 (run [FetchCompletes 0 Success])) (FetchCompletes 1 Failure)) 2
     = Some (Millis 1000) \<and>
   \<not> isRefreshing (foldl step (fetchData 0 (run [FetchCompletes 0 Success]))
       [FetchCompletes 1 Failure, TimerFires 2, FetchCompletes 2 FailureAfterData, TimerFires 4,
        FetchCompletes 3 FailureAfterReset, TimerFires 6, FetchCompletes 4 Failure]) \<and>
   fetchInvocations (foldl step (fetchData 0 (run [FetchCompletes 0 Success]))
       [FetchCompletes 1 Failure, TimerFires 2, FetchCompletes 2 FailureAfterData, TimerFires 4,
        FetchCompletes 3 FailureAfterReset, TimerFires 6, FetchCompletes 4 Failure]) = 5 \<and>
   dataUpdates (foldl step (fetchData 0 (run [FetchCompletes 0 Success]))
       [FetchCompletes 1 Failure, TimerFires 2, FetchCompletes 2 FailureAfterData, TimerFires 4,
        FetchCompletes 3 FailureAfterReset, TimerFires 6, FetchCompletes 4 Failure]) = 3 \<and>
   retriesBounded (run [FetchCompletes 0 Success])"
proof -
  let ?s = "run [FetchCompletes 0 Success]"
  have a: "nextTimer ?s = 1" "fetchInvocations ?s = 1" "dataUpdates ?s = 1"
    by (simp_all add: run_defs)
  have n: "(1::nat) + 1 = 2" "(1::nat) + 3 = 4" "(1::nat) + 5 = 6"
    "(1::nat) + 2 = 3" "(1::nat) + 4 = 5"
    by simp_all
  have h: "{Failure, FailureAfterData, FailureAfterReset, Failure}
     \<subseteq> {Failure, FailureAfterData, FailureAfterReset}"
    by simp
  note th = retry_policy[OF h, of ?s "[FetchCompletes 0 Success]", unfolded a n]
  have l: "length (filter (\<lambda>f. f \<noteq> Failure)
      [Failure, FailureAfterData, FailureAfterReset, Failure]) = 2"
    by simp
  from th h show ?thesis
    unfolding l by (simp del: step.simps)
qed

text \<open>
  C5 as stated fails. A manual refresh whose first three attempts have failed (the
  provider's initial fetch had succeeded before) is not idle: the flag is still set, a
  third retry is pending, and when it fires \<open>fetchData\<close> runs a fourth time for this
  refresh (the fifth call in all, with retry count 3). And three attempts that fail in
  \<open>updateStatusBar()\<close> have each assigned the usage data.
\<close>

theorem three_failures_counterexample:
  "isRefreshing (run [FetchCompletes 0 Success, RefreshCommand, FetchCompletes 1 Failure,
       TimerFires 2, FetchCompletes 2 Failure, TimerFires 4, FetchCompletes 3 Failure]) \<and>
   timers (run [FetchCompletes 0 Success, RefreshCommand, FetchCompletes 1 Failure,
       TimerFires 2, FetchCompletes 2 Failure, TimerFires 4, FetchCompletes 3 Failure]) 6
     = Some (RetryCallback 3) \<and>
   fetchInvocations (run [FetchCompletes 0 Success, RefreshCommand, FetchCompletes 1 Failure,
       TimerFires 2, FetchCompletes 2 Failure, TimerFires 4, FetchCompletes 3 Failure]) = 4 \<and>
   fetchInvocations (run [FetchCompletes 0 Success, RefreshCommand, FetchCompletes 1 Failure,
       TimerFires 2, FetchCompletes 2 Failure, TimerFires 4, FetchCompletes 3 Failure,
       TimerFires 6]) = 5 \<and>
   inFlight (run [FetchCompletes 0 Success, RefreshCommand, FetchCompletes 1 Failure,
       TimerFires 2, FetchCompletes 2 Failure, TimerFires 4, FetchCompletes 3 Failure,
       TimerFires 6]) 4 = Some 3 \<and>
   dataUpdates (run [FetchCompletes 0 FailureAfterReset, TimerFires 1,
       FetchCompletes 1 FailureAfterReset, TimerFires 3, FetchCompletes 2 FailureAfterReset]) = 3"
  by (simp add: run_defs)

subsection \<open>The fetch timeout\<close>

lemma fetchTimeoutFired_errorMessages: "errorMessages (fetchTimeoutFired s) = errorMessages s"
  by (simp add: provider_defs)

lemma fetchCompleted_errorMessages: "errorMessages (fetchCompleted rc out s) = errorMessages s"
  by (cases out) (simp_all add: provider_defs)

lemma step_errorMessages: "errorMessages (step s e) = errorMessages s"
  by (cases e)
     (simp_all add: provider_defs fetchCompleted_errorMessages split: option.split callback.split)

lemma foldl_errorMessages: "errorMessages (foldl step s es) = errorMessages s"
  by (induction es arbitrary: s) (simp_all add: step_errorMessages)

lemma fetchData_arms_timeout:
  "fetchTimeoutTimer (fetchData n s) = Some (nextTimer s) \<and>
   timers (fetchData n s) (nextTimer s) = Some FetchTimeoutCallback"
  by (simp add: fetchData_eq)

text \<open>
  C6 on the code. The provider's first fetch has succeeded, the user refreshes (both flags
  are set and the fetch timeout 1 is armed), and the timeout fires before the fetch
  completes: the state is reset, and no error message is shown, because the callback
  calls \<open>resetRefreshState\<close>, which clears \<open>isManualRefresh\<close>, before it tests that flag.
  No run of the provider ever shows an error message.
\<close>

theorem manual_refresh_timeout_shows_no_error:
  "isRefreshing (run [FetchCompletes 0 Success, RefreshCommand]) \<and>
   isManualRefresh (run [FetchCompletes 0 Success, RefreshCommand]) \<and>
   fetchTimeoutTimer (run [FetchCompletes 0 Success, RefreshCommand]) = Some 1 \<and>
   timers (run [FetchCompletes 0 Success, RefreshCommand]) 1 = Some FetchTimeoutCallback \<and>
   inFlight (run [FetchCompletes 0 Success, RefreshCommand]) 1 = Some 0 \<and>
   \<not> isRefreshing (run [FetchCompletes 0 Success, RefreshCommand, TimerFires 1]) \<and>
   errorMessages (run [FetchCompletes 0 Success, RefreshCommand, TimerFires 1]) = 0 \<and>
   errorMessages (run es) = 0"
proof -
  have "errorMessages (run es) = 0"
    by (simp add: run_def foldl_errorMessages newProvider_def provider_defs)
  then show ?thesis by (simp add: run_defs)
qed

subsection \<open>Clicks\<close>

lemma fetchCompleted_click:
  "clickTimer (fetchCompleted rc out s) = clickTimer s"
  "clickCount (fetchCompleted rc out s) = clickCount s"
  by (cases out; simp add: provider_defs)+

lemma step_clickCount:
  "(clickTimer s = None \<longrightarrow> clickCount s = 0) \<Longrightarrow>
   (clickTimer (step s e) = None \<longrightarrow> clickCount (step s e) = 0)"
  by (cases e)
     (simp_all add: provider_defs fetchCompleted_click split: option.split callback.split)

lemma foldl_clickCount:
  "(clickTimer s = None \<longrightarrow> clickCount s = 0) \<Longrightarrow>
   (clickTimer (foldl step s es) = None \<longrightarrow> clickCount (foldl step s es) = 0)"
proof (induction es arbitrary: s)
  case Nil
  then show ?case by simp
next
  case (Cons e es)
  from Cons.IH[OF step_clickCount[OF Cons.prems, of e]] show ?case by simp
qed

lemma run_clickCount: "clickTimer (run es) = None \<Longrightarrow> clickCount (run es) = 0"
  using foldl_clickCount[of newProvider es] by (simp add: run_def newProvider_def provider_defs)

text \<open>
  C7. In a state \<open>s\<close> that a run of the provider has reached, not refreshing and with no
  click timeout pending: a click arms the click timeout \<open>nextTimer s\<close> and triggers
  nothing by itself. When that timeout fires, \<open>refresh()\<close> is called once (one more fetch)
  and the settings command not at all. When instead a second click comes first, the
  settings command is executed once, \<open>refresh()\<close> is not called, and the timeout is
  cancelled: it is no longer live, and its firing would change nothing.
\<close>

theorem click_debounce:
  assumes "s = run es" and "\<not> isRefreshing s" and "clickTimer s = None"
  shows "clickTimer (step s Click) = Some (nextTimer s) \<and>
     timers (step s Click) (nextTimer s) = Some ClickCallback \<and>
     refreshCalls (step s Click) = refreshCalls s \<and>
     settingsCommands (step s Click) = settingsCommands s \<and>
     refreshCalls (step (step s Click) (TimerFires (nextTimer s))) = refreshCalls s + 1 \<and>
     settingsCommands (step (step s Click) (TimerFires (nextTimer s))) = settingsCommands s \<and>
     fetchInvocations (step (step s Click) (TimerFires (nextTimer s))) = fetchInvocations s + 1 \<and>
     clickTimer (step (step s Click) (TimerFires (nextTimer s))) = None \<and>
     settingsCommands (step (step s Click) Click) = settingsCommands s + 1 \<and>
     refreshCalls (step (step s Click) Click) = refreshCalls s \<and>
     fetchInvocations (step (step s Click) Click) = fetchInvocations s \<and>
     clickTimer (step (step s Click) Click) = None \<and>
     timers (step (step s Click) Click) (nextTimer s) = None \<and>
     step (step (step s Click) Click) (TimerFires (nextTimer s)) = step (step s Click) Click"
proof -
  from assms(1,3) have c: "clickCount s = 0" using run_clickCount by simp
  from c assms(2,3) show ?thesis
    by (simp add: provider_defs cancel_def)
qed

theorem click_debounce_witness:
  "\<not> isRefreshing (run [FetchCompletes 0 Success]) \<and>
   clickTimer (run [FetchCompletes 0 Success]) = None \<and>
   nextTimer (run [FetchCompletes 0 Success]) = 1 \<and>
   refreshCalls (step (step (run [FetchCompletes 0 Success]) Click) (TimerFires 1)) = 1 \<and>
   settingsCommands (step (step (run [FetchCompletes 0 Success]) Click) (TimerFires 1)) = 0 \<and>
   settingsCommands (step (step (run [FetchCompletes 0 Success]) Click) Click) = 1 \<and>
   refreshCalls (step (step (run [FetchCompletes 0 Success]) Click) Click) = 0"
proof -
  let ?s = "run [FetchCompletes 0 Success]"
  have a: "\<not> isRefreshing ?s" "clickTimer ?s = None" "nextTimer ?s = 1"
    "refreshCalls ?s = 0" "settingsCommands ?s = 0"
    by (simp_all add: run_defs)
  note th = click_debounce[OF refl a(1,2), unfolded a]
  from th a show ?thesis by (simp del: step.simps)
qed

subsection \<open>Requests while a refresh is in flight\<close>

text \<open>
  C8, as the code has it. While \<open>isRefreshing\<close> is set, a click on the status bar item
  changes nothing: no fetch is started, queued or merged. The refresh command and
  \<open>safeRefresh()\<close> have no such guard: in every state each calls \<open>fetchData\<close> once more,
  and the calls already suspended stay in flight.
\<close>

theorem click_ignored_while_refreshing:
  "(isRefreshing s \<longrightarrow> step s Click = s) \<and>
   fetchInvocations (step s RefreshCommand) = fetchInvocations s + 1 \<and>
   inFlight (step s RefreshCommand) (fetchInvocations s) = Some 0 \<and>
   fetchInvocations (step s SafeRefresh) = fetchInvocations s + 1 \<and>
   inFlight (step s SafeRefresh) (fetchInvocations s) = Some 0 \<and>
   (k \<noteq> fetchInvocations s \<longrightarrow>
      inFlight (step s RefreshCommand) k = inFlight s k \<and>
      inFlight (step s SafeRefresh) k = inFlight s k)"
  by (simp add: provider_defs)

theorem click_ignored_while_refreshing_witness:
  "isRefreshing (run [FetchCompletes 0 Success, RefreshCommand]) \<and>
   step (run [FetchCompletes 0 Success, RefreshCommand]) Click =
     run [FetchCompletes 0 Success, RefreshCommand] \<and>
   (1::nat) \<noteq> fetchInvocations (run [FetchCompletes 0 Success, RefreshCommand]) \<and>
   inFlight (step (run [FetchCompletes 0 Success, RefreshCommand]) RefreshCommand) 1 = Some 0"
proof -
  let ?s = "run [FetchCompletes 0 Success, RefreshCommand]"
  have a: "isRefreshing ?s" "fetchInvocations ?s = 2" "inFlight ?s 1 = Some 0"
    by (simp_all add: run_defs)
  from click_ignored_while_refreshing[of ?s 1] a show ?thesis
    by (simp del: step.simps)
qed

text \<open>
  C8 as stated fails for the refresh command: issued while the first manual refresh is
  in flight, it starts a second fetch, and both are then in flight.
\<close>

theorem second_refresh_counterexample:
  "isRefreshing (run [FetchCompletes 0 Success, RefreshCommand]) \<and>
   fetchInvocations (run [FetchCompletes 0 Success, RefreshCommand]) = 2 \<and>
   inFlight (run [FetchCompletes 0 Success, RefreshCommand]) 1 = Some 0 \<and>
   fetchInvocations (run [FetchCompletes 0 Success, RefreshCommand, RefreshCommand]) = 3 \<and>
   inFlight (run [FetchCompletes 0 Success, RefreshCommand, RefreshCommand]) 1 = Some 0 \<and>
   inFlight (run [FetchCompletes 0 Success, RefreshCommand, RefreshCommand]) 2 = Some 0"
  by (simp add: run_defs)

subsection \<open>Disposal\<close>

lemma cancel_commute: "cancel a (cancel b m) = cancel b (cancel a m)"
  by (auto simp add: cancel_def fun_eq_iff split: option.split)

lemma cancel_idem: "cancel h (cancel h m) = cancel h m"
  by (simp add: cancel_def split: option.split)

lemma dispose_idempotent: "dispose (dispose s) = dispose s"
proof -
  have "cancel (retryTimer s)
          (cancel (fetchTimeoutTimer s) (cancel (clickTimer s) (cancel (retryTimer s) (timers s))))
      = cancel (fetchTimeoutTimer s) (cancel (clickTimer s) (cancel (retryTimer s) (timers s)))"
    by (simp only: cancel_commute[of "retryTimer s" "fetchTimeoutTimer s"]
          cancel_commute[of "retryTimer s" "clickTimer s"] cancel_idem)
  then show ?thesis by (simp add: dispose_eq)
qed

lemma retryTimer_never_set: "retryTimer (run es) = None"
proof -
  have step: "\<And>s e. retryTimer (step s e) = retryTimer s"
  proof -
    fix s e show "retryTimer (step s e) = retryTimer s"
    proof (cases e)
      case (FetchCompletes k out)
      then show ?thesis
        by (cases out) (simp_all add: provider_defs split: option.split)
    qed (simp_all add: provider_defs split: option.split callback.split)
  qed
  have "\<And>s. retryTimer (foldl step s es) = retryTimer s"
    by (induction es) (simp_all add: step)
  then show ?thesis by (simp add: run_def newProvider_def provider_defs)
qed

text \<open>
  C10 on the code. The provider's first fetch fails, which schedules a retry (timeout 1)
  whose handle is not stored; the provider is then disposed. The field \<open>retryTimer\<close> is
  still \<open>null\<close> (it is so in every run), so the retry is still live after \<open>dispose()\<close>: it
  fires, \<open>fetchData(1)\<close> runs on the disposed provider and arms a new fetch timeout. And
  with two fetches in flight that both fail, two retry timeouts are live at once.
\<close>

theorem dispose_leaves_retry_pending:
  "statusBarDisposed (run [FetchCompletes 0 Failure, Dispose]) \<and>
   retryTimer (run [FetchCompletes 0 Failure, Dispose]) = None \<and>
   timers (run [FetchCompletes 0 Failure, Dispose]) 1 = Some (RetryCallback 1) \<and>
   fetchInvocations (run [FetchCompletes 0 Failure, Dispose]) = 1 \<and>
   fetchInvocations (run [FetchCompletes 0 Failure, Dispose, TimerFires 1]) = 2 \<and>
   inFlight (run [FetchCompletes 0 Failure, Dispose, TimerFires 1]) 1 = Some 1 \<and>
   fetchTimeoutTimer (run [FetchCompletes 0 Failure, Dispose, TimerFires 1]) = Some 2 \<and>
   timers (run [FetchCompletes 0 Failure, Dispose, TimerFires 1]) 2 = Some FetchTimeoutCallback \<and>
   timers (run [RefreshCommand, FetchCompletes 0 Failure, FetchCompletes 1 Failure]) 2
     = Some (RetryCallback 1) \<and>
   timers (run [RefreshCommand, FetchCompletes 0 Failure, FetchCompletes 1 Failure]) 3
     = Some (RetryCallback 1) \<and>
   retryTimer (run es) = None"
  using retryTimer_never_set[of es] by (simp add: run_defs)

end
